theory Spec2Isabelle
  imports Main "HOL-Library.Word"
begin

unbundle bit_operations_syntax

section \<open>Buffers, numbers and errors\<close>

text \<open>
  A Node \<open>Buffer\<close> is a list of bytes. JavaScript numbers that hold integers and
  BigInts are both modelled as \<open>int\<close>: none of the arithmetic below leaves the range in
  which a double is exact, and BigInts are unbounded. Every \<open>throw\<close> of the source is a
  constructor of \<open>error\<close>; a function that can throw returns \<open>error + 'a\<close>.
\<close>

type_synonym byte = "8 word"
type_synonym Buffer = "byte list"

datatype error =
    RangeError \<comment> \<open>Node's ERR_OUT_OF_RANGE: a Buffer read or write outside the buffer or the field\<close>
  | TypeError \<comment> \<open>a BigInt write of \<open>undefined\<close>\<close>
  | UnexpectedEOF \<comment> \<open>'unexpected EOF'\<close>
  | DataDescriptorZip64Only \<comment> \<open>'data descriptor should only be used with zip64'\<close>
  | ExtraFieldHeaderExceeds \<comment> \<open>'extra field header exceeds extra field buffer size'\<close>
  | ExtraFieldLengthExceeds \<comment> \<open>'extra field length exceeds extra field buffer size'\<close>
  | InvalidLocalFileHeaderSignature int
  | InvalidCentralDirectoryFileHeaderSignature int
  | MultiDisk int \<comment> \<open>'multi-disk zip files are not supported: found disk number: ...'\<close>
  | InvalidCommentLength int int \<comment> \<open>'invalid comment length. expected: ... found: ...'\<close>
  | InvalidZip64EocdlSignature
  | InvalidZip64EocdrSignature
  | EocdrSignatureNotFound \<comment> \<open>'end of central directory record signature not found'\<close>
  | StrongEncryption
  | ExpectedZip64Eief \<comment> \<open>'expected zip64 extended information extra field'\<close>
  | Zip64NoUncompressedSize
  | Zip64NoCompressedSize
  | Zip64NoRelativeHeaderOffset
  | Zip64NoDiskNumberStart
  | RangeNotAllowedCompressed
  | RangeNotAllowedEncrypted
  | StartNegative | StartTooLarge | EndNegative | EndTooLarge | EndBeforeStart
  | UnsupportedCompressionMethod int
  | BuffersDontSupportBigints
  | TooManyBytes int int \<comment> \<open>'too many bytes in the stream. expected ... got at least ...'\<close>
  | NotEnoughBytes int int \<comment> \<open>'not enough bytes in the stream. expected ... got ...'\<close>
  | UnexpectedChecksum
  | NotEncodableInCp437 "16 word"
  | FileNameTooLong int \<comment> \<open>'utf8 file name too long. ... > 65535'\<close>
  | FileCommentTooLarge
  | InvalidMode int
  | ZipFinalized \<comment> \<open>'Zip file has been finalized'\<close>
  | CommentTooLarge
  | CommentContainsEocdrSignature
  | EmptyMetadataPath
  | AbsolutePath
  | InvalidRelativePath
  | FilePathEndsWithSlash
  | NotAFile
  | BufferTooLarge int
  | UnexpectedCompressedSize
  | StreamUnexpectedChecksum \<comment> \<open>'file data stream has unexpected checksum'\<close>
  | StreamUnexpectedNumberOfBytes \<comment> \<open>'file data stream has unexpected number of bytes'\<close>
  | External nat \<comment> \<open>an error raised by a collaborator: the file system, zlib, a caller's stream\<close>

text \<open>Sequencing of computations that can throw.\<close>

definition bind :: "error + 'a \<Rightarrow> ('a \<Rightarrow> error + 'b) \<Rightarrow> error + 'b" where
  "bind m f = (case m of Inl e \<Rightarrow> Inl e | Inr a \<Rightarrow> f a)"

text \<open>
  \<open>Buffer.concat\<close> of pieces each of which may have thrown while it was written: the
  first failure in source order is the result.
\<close>

fun concat_writes :: "(error + Buffer) list \<Rightarrow> error + Buffer" where
  "concat_writes [] = Inr []"
| "concat_writes (Inl e # rs) = Inl e"
| "concat_writes (Inr b # rs) = (case concat_writes rs of Inl e \<Rightarrow> Inl e | Inr bs \<Rightarrow> Inr (b @ bs))"

subsection \<open>Little-endian fields\<close>

text \<open>
  \<open>buf.writeUInt16LE(value)\<close>, \<open>writeUInt32LE\<close> and \<open>writeBigUInt64LE\<close> throw
  ERR_OUT_OF_RANGE when the value does not fit the field, and otherwise store its bytes,
  least significant first.
\<close>

fun le_bytes :: "nat \<Rightarrow> int \<Rightarrow> Buffer" where
  "le_bytes 0 v = []"
| "le_bytes (Suc n) v = word_of_int v # le_bytes n (v div 256)"

definition writeUInt16LE :: "int \<Rightarrow> error + Buffer" where
  "writeUInt16LE v = (if 0 \<le> v \<and> v \<le> 0xffff then Inr (le_bytes 2 v) else Inl RangeError)"

definition writeUInt32LE :: "int \<Rightarrow> error + Buffer" where
  "writeUInt32LE v = (if 0 \<le> v \<and> v \<le> 0xffffffff then Inr (le_bytes 4 v) else Inl RangeError)"

definition writeBigUInt64LE :: "int \<Rightarrow> error + Buffer" where
  "writeBigUInt64LE v =
     (if 0 \<le> v \<and> v \<le> 0xffffffffffffffff then Inr (le_bytes 8 v) else Inl RangeError)"

text \<open>
  \<open>buf.readUInt16LE(offset)\<close> and its siblings throw ERR_OUT_OF_RANGE when the field
  does not lie inside the buffer.
\<close>

fun le_value :: "Buffer \<Rightarrow> int" where
  "le_value [] = 0"
| "le_value (b # bs) = uint b + 256 * le_value bs"

definition readUIntLE :: "nat \<Rightarrow> Buffer \<Rightarrow> int \<Rightarrow> error + int" where
  "readUIntLE n buf offset =
     (if 0 \<le> offset \<and> offset + int n \<le> int (length buf)
      then Inr (le_value (take n (drop (nat offset) buf)))
      else Inl RangeError)"

definition readUInt8 :: "Buffer \<Rightarrow> int \<Rightarrow> error + int" where
  "readUInt8 = readUIntLE 1"

definition readUInt16LE :: "Buffer \<Rightarrow> int \<Rightarrow> error + int" where
  "readUInt16LE = readUIntLE 2"

definition readUInt32LE :: "Buffer \<Rightarrow> int \<Rightarrow> error + int" where
  "readUInt32LE = readUIntLE 4"

definition readBigUInt64LE :: "Buffer \<Rightarrow> int \<Rightarrow> error + int" where
  "readBigUInt64LE = readUIntLE 8"

text \<open>
  \<open>buf.subarray(start, end)\<close>: a negative index counts from the end, both indices are
  clamped to the buffer, and an empty range gives the empty buffer.
\<close>

definition subarray :: "Buffer \<Rightarrow> int \<Rightarrow> int \<Rightarrow> Buffer" where
  "subarray buf start end' =
     (let len = int (length buf);
          s = (if start < 0 then max (len + start) 0 else min start len);
          e = (if end' < 0 then max (len + end') 0 else min end' len)
      in take (nat (e - s)) (drop (nat s) buf))"

section \<open>Constants (the constants module)\<close>

definition gp_encrypted :: int where "gp_encrypted = 0x0001"
definition gp_strongEncryption :: int where "gp_strongEncryption = 0x0040"
definition gp_unknownCrc32AndFileSizes :: int where "gp_unknownCrc32AndFileSizes = 0x0008"
definition gp_utf8 :: int where "gp_utf8 = 0x0800"

definition cm_none :: int where "cm_none = 0"
definition cm_deflate :: int where "cm_deflate = 8"

definition VERSION_NEEDED_TO_EXTRACT_UTF8 :: int where "VERSION_NEEDED_TO_EXTRACT_UTF8 = 20"
definition VERSION_NEEDED_TO_EXTRACT_ZIP64 :: int where "VERSION_NEEDED_TO_EXTRACT_ZIP64 = 45"
definition VERSION_MADE_BY :: int where "VERSION_MADE_BY = (push_bit 8 3) OR 63"


section \<open>Record serialisation (lib/write.js)\<close>

text \<open>
  Each serialiser allocates the fixed part with \<open>Buffer.allocUnsafe\<close> and writes its
  fields at fixed offsets. Where the fields tile the fixed part, the result is the
  concatenation of the fields in offset order, which is how the model writes it. The one
  exception is the end of central directory record: its serialiser never writes the
  comment length at offset 20, so bytes 20 and 21 keep whatever \<open>allocUnsafe\<close> handed
  out; the model takes them as the parameter \<open>uninit\<close>.
\<close>

type_synonym ExtraField = "int \<times> Buffer" \<comment> \<open>\<open>{ id, data }\<close>\<close>

fun serializeExtraFields :: "ExtraField list \<Rightarrow> error + Buffer" where
  "serializeExtraFields [] = Inr []"
| "serializeExtraFields ((fid, data) # fs) =
     concat_writes [writeUInt16LE fid, writeUInt16LE (int (length data)), Inr data,
       serializeExtraFields fs]"

record LocalFileHeaderObject =
  l_versionNeededToExtract :: int
  l_generalPurposeBitFlag :: int
  l_compressionMethod :: int
  l_fileLastModificationTime :: int
  l_fileLastModificationDate :: int
  l_crc32 :: int
  l_compressedSize :: int
  l_uncompressedSize :: int
  l_fileName :: Buffer
  l_extraFields :: "ExtraField list"

definition serializeLocalFileHeader :: "LocalFileHeaderObject \<Rightarrow> error + Buffer" where
  "serializeLocalFileHeader object =
     bind (serializeExtraFields (l_extraFields object)) (\<lambda>extraFields.
       concat_writes [
         writeUInt32LE 0x04034b50,
         writeUInt16LE (l_versionNeededToExtract object),
         writeUInt16LE (l_generalPurposeBitFlag object),
         writeUInt16LE (l_compressionMethod object),
         writeUInt16LE (l_fileLastModificationTime object),
         writeUInt16LE (l_fileLastModificationDate object),
         writeUInt32LE (l_crc32 object),
         writeUInt32LE (l_compressedSize object),
         writeUInt32LE (l_uncompressedSize object),
         writeUInt16LE (int (length (l_fileName object))),
         writeUInt16LE (int (length extraFields)),
         Inr (l_fileName object),
         Inr extraFields])"

text \<open>
  \<open>serializeDataDescriptor\<close> takes the sizes as BigInts; \<open>None\<close> is \<open>undefined\<close>,
  for which the \<open>typeof\<close> test throws. An undefined \<open>crc32\<close> is the number NaN to
  \<open>writeUInt32LE\<close>, which stores it as 0.
\<close>

definition serializeDataDescriptor :: "int option \<Rightarrow> int option \<Rightarrow> int option \<Rightarrow> error + Buffer" where
  "serializeDataDescriptor crc compressedSize uncompressedSize =
     (case (compressedSize, uncompressedSize) of
        (Some c, Some u) \<Rightarrow>
          concat_writes [
            writeUInt32LE 0x08074b50,
            writeUInt32LE (case crc of None \<Rightarrow> 0 | Some v \<Rightarrow> v),
            writeBigUInt64LE c,
            writeBigUInt64LE u]
      | _ \<Rightarrow> Inl DataDescriptorZip64Only)"



record EndOfCentralDirectoryRecordObject =
  e_diskNumber :: int
  e_centralDirectoryDiskNumber :: int
  e_numberOfEntriesOnDisk :: int
  e_numberOfEntries :: int
  e_sizeOfCentralDirectory :: int
  e_centralDirectoryOffset :: int
  e_comment :: Buffer

definition serializeEndOfCentralDirectoryRecord ::
  "byte \<times> byte \<Rightarrow> EndOfCentralDirectoryRecordObject \<Rightarrow> error + Buffer" where
  "serializeEndOfCentralDirectoryRecord uninit object =
     concat_writes [
       writeUInt32LE 0x06054b50,
       writeUInt16LE (e_diskNumber object),
       writeUInt16LE (e_centralDirectoryDiskNumber object),
       writeUInt16LE (e_numberOfEntriesOnDisk object),
       writeUInt16LE (e_numberOfEntries object),
       writeUInt32LE (e_sizeOfCentralDirectory object),
       writeUInt32LE (e_centralDirectoryOffset object),
       Inr [fst uninit, snd uninit],
       Inr (e_comment object)]"

record Zip64EndOfCentralDirectoryRecordObject =
  z_versionMadeBy :: int
  z_versionNeededToExtract :: int
  z_diskNumber :: int
  z_centralDirectoryDiskNumber :: int
  z_numberOfEntriesOnDisk :: int
  z_numberOfEntries :: int
  z_sizeOfCentralDirectory :: int
  z_centralDirectoryOffset :: int
  z_zip64ExtensibleDataSector :: Buffer

definition serializeZip64EndOfCentralDirectoryRecord ::
  "Zip64EndOfCentralDirectoryRecordObject \<Rightarrow> error + Buffer" where
  "serializeZip64EndOfCentralDirectoryRecord object =
     concat_writes [
       writeUInt32LE 0x06064b50,
       writeBigUInt64LE (44 + int (length (z_zip64ExtensibleDataSector object))),
       writeUInt16LE (z_versionMadeBy object),
       writeUInt16LE (z_versionNeededToExtract object),
       writeUInt32LE (z_diskNumber object),
       writeUInt32LE (z_centralDirectoryDiskNumber object),
       writeBigUInt64LE (z_numberOfEntriesOnDisk object),
       writeBigUInt64LE (z_numberOfEntries object),
       writeBigUInt64LE (z_sizeOfCentralDirectory object),
       writeBigUInt64LE (z_centralDirectoryOffset object),
       Inr (z_zip64ExtensibleDataSector object)]"

definition serializeZip64EndOfCentralDirectoryLocator :: "int \<Rightarrow> int \<Rightarrow> int \<Rightarrow> error + Buffer" where
  "serializeZip64EndOfCentralDirectoryLocator zip64EndOfCentralDirectoryRecordDiskNumber
       zip64EndOfCentralDirectoryRecordOffset diskCount =
     concat_writes [
       writeUInt32LE 0x07064b50,
       writeUInt32LE zip64EndOfCentralDirectoryRecordDiskNumber,
       writeBigUInt64LE zip64EndOfCentralDirectoryRecordOffset,
       writeUInt32LE diskCount]"

section \<open>The writer's entries and their headers (lib/zip.js)\<close>

text \<open>
  The write-side entry. \<open>crc32\<close>, the two sizes and the header offset are
  \<open>undefined\<close> (here \<open>None\<close>) until the writer fills them in.
\<close>

record Entry =
  fileName :: Buffer
  lastModFileTime :: int
  lastModFileDate :: int
  externalFileAttributes :: int
  crc32 :: "int option"
  uncompressedSize :: "int option"
  compressedSize :: "int option"
  compressionMethod :: int
  crcAndFileSizeKnown :: bool
  forceZip64Format :: bool
  comment :: Buffer
  relativeOffsetOfLocalHeader :: "int option"

text \<open>
  What JavaScript does with an \<open>undefined\<close> field: \<open>undefined >= n\<close> is false,
  \<open>Number(undefined)\<close> is NaN, which \<open>writeUInt32LE\<close> stores as 0, and
  \<open>writeBigUInt64LE(undefined)\<close> throws a TypeError.
\<close>

definition ge_undefined :: "int option \<Rightarrow> int \<Rightarrow> bool" where
  "ge_undefined v n = (case v of None \<Rightarrow> False | Some x \<Rightarrow> x \<ge> n)"

definition Number :: "int option \<Rightarrow> int" where
  "Number v = (case v of None \<Rightarrow> 0 | Some x \<Rightarrow> x)"

definition writeBigUInt64LE_field :: "int option \<Rightarrow> error + Buffer" where
  "writeBigUInt64LE_field v = (case v of None \<Rightarrow> Inl TypeError | Some x \<Rightarrow> writeBigUInt64LE x)"

definition getLocalFileHeader :: "Entry \<Rightarrow> error + Buffer" where
  "getLocalFileHeader entry =
     (let useZip64Format = forceZip64Format entry
            \<or> \<not> crcAndFileSizeKnown entry
            \<or> ge_undefined (uncompressedSize entry) 0xffffffff
            \<or> ge_undefined (compressedSize entry) 0xffffffff
      in bind
        (if useZip64Format
         then bind
           (if crcAndFileSizeKnown entry
            then concat_writes [writeBigUInt64LE_field (uncompressedSize entry),
                   writeBigUInt64LE_field (compressedSize entry)]
            else Inr (replicate 16 0))
           (\<lambda>zeiefBuffer. Inr (0xffffffff, 0xffffffff, VERSION_NEEDED_TO_EXTRACT_ZIP64,
              [(0x0001, zeiefBuffer)]))
         else Inr (Number (compressedSize entry), Number (uncompressedSize entry),
              VERSION_NEEDED_TO_EXTRACT_UTF8, []))
        (\<lambda>(compressedSize', uncompressedSize', versionNeededToExtract, extraFields).
          serializeLocalFileHeader \<lparr>
            l_versionNeededToExtract = versionNeededToExtract,
            l_generalPurposeBitFlag =
              (if crcAndFileSizeKnown entry then gp_utf8
               else gp_utf8 OR gp_unknownCrc32AndFileSizes),
            l_compressionMethod = compressionMethod entry,
            l_fileLastModificationTime = lastModFileTime entry,
            l_fileLastModificationDate = lastModFileDate entry,
            l_crc32 = (if crcAndFileSizeKnown entry then Number (crc32 entry) else 0),
            l_compressedSize = compressedSize',
            l_uncompressedSize = uncompressedSize',
            l_fileName = fileName entry,
            l_extraFields = extraFields \<rparr>))"


text \<open>
  \<open>getEndOfCentralDirectoryRecord\<close>. The classic record is serialised first, with the
  plain numbers unless \<open>forceZip64Format\<close> is set, and only then is
  \<open>useZip64Format\<close> consulted.
\<close>

record EocdrParams =
  p_entryCount :: int
  p_cursor :: int
  p_offsetOfStartOfCentralDirectory :: int
  p_comment :: Buffer
  p_forceZip64Format :: bool

definition useZip64Format_eocdr :: "EocdrParams \<Rightarrow> bool" where
  "useZip64Format_eocdr p =
     (p_forceZip64Format p
      \<or> p_entryCount p \<ge> 0xffff
      \<or> p_cursor p - p_offsetOfStartOfCentralDirectory p \<ge> 0xffffffff
      \<or> p_offsetOfStartOfCentralDirectory p \<ge> 0xffffffff)"

definition eocdrBuffer_of :: "byte \<times> byte \<Rightarrow> EocdrParams \<Rightarrow> error + Buffer" where
  "eocdrBuffer_of uninit p =
     (let sizeOfCentralDirectory = p_cursor p - p_offsetOfStartOfCentralDirectory p;
          normalEntryCount = (if p_forceZip64Format p then 0xffff else p_entryCount p);
          normalSizeOfCentralDirectory =
            (if p_forceZip64Format p then 0xffffffff else sizeOfCentralDirectory);
          normalOffsetOfStartOfCentralDirectory =
            (if p_forceZip64Format p then 0xffffffff else p_offsetOfStartOfCentralDirectory p)
      in serializeEndOfCentralDirectoryRecord uninit \<lparr>
           e_diskNumber = 0,
           e_centralDirectoryDiskNumber = 0,
           e_numberOfEntriesOnDisk = normalEntryCount,
           e_numberOfEntries = normalEntryCount,
           e_sizeOfCentralDirectory = normalSizeOfCentralDirectory,
           e_centralDirectoryOffset = normalOffsetOfStartOfCentralDirectory,
           e_comment = p_comment p \<rparr>)"

definition zip64EocdrBuffer_of :: "EocdrParams \<Rightarrow> error + Buffer" where
  "zip64EocdrBuffer_of p =
     serializeZip64EndOfCentralDirectoryRecord \<lparr>
       z_versionMadeBy = VERSION_MADE_BY,
       z_versionNeededToExtract = VERSION_NEEDED_TO_EXTRACT_ZIP64,
       z_diskNumber = 0,
       z_centralDirectoryDiskNumber = 0,
       z_numberOfEntriesOnDisk = p_entryCount p,
       z_numberOfEntries = p_entryCount p,
       z_sizeOfCentralDirectory = p_cursor p - p_offsetOfStartOfCentralDirectory p,
       z_centralDirectoryOffset = p_offsetOfStartOfCentralDirectory p,
       z_zip64ExtensibleDataSector = [] \<rparr>"

definition zip64EocdlBuffer_of :: "EocdrParams \<Rightarrow> error + Buffer" where
  "zip64EocdlBuffer_of p = serializeZip64EndOfCentralDirectoryLocator 0 (p_cursor p) 1"

definition getEndOfCentralDirectoryRecord :: "byte \<times> byte \<Rightarrow> EocdrParams \<Rightarrow> error + Buffer" where
  "getEndOfCentralDirectoryRecord uninit p =
     bind (eocdrBuffer_of uninit p) (\<lambda>eocdrBuffer.
       if \<not> useZip64Format_eocdr p then Inr eocdrBuffer
       else concat_writes [zip64EocdrBuffer_of p, zip64EocdlBuffer_of p, Inr eocdrBuffer])"

section \<open>Strings: UTF-8 and CP437 (lib/cp437.js)\<close>

text \<open>
  A JavaScript string is a sequence of UTF-16 code units. \<open>Buffer.from(string)\<close> is
  its UTF-8 encoding: a surrogate pair becomes one four-byte sequence, and a surrogate
  on its own becomes U+FFFD (EF BF BD).
\<close>

type_synonym jsstring = "16 word list"

definition utf8_of_codepoint :: "nat \<Rightarrow> Buffer" where
  "utf8_of_codepoint c =
     (if c < 0x80 then [of_nat c]
      else if c < 0x800 then [of_nat (0xC0 + c div 64), of_nat (0x80 + c mod 64)]
      else if c < 0x10000 then
        [of_nat (0xE0 + c div 4096), of_nat (0x80 + c div 64 mod 64), of_nat (0x80 + c mod 64)]
      else
        [of_nat (0xF0 + c div 262144), of_nat (0x80 + c div 4096 mod 64),
         of_nat (0x80 + c div 64 mod 64), of_nat (0x80 + c mod 64)])"

definition is_high_surrogate :: "16 word \<Rightarrow> bool" where
  "is_high_surrogate c = (0xD800 \<le> c \<and> c \<le> 0xDBFF)"

definition is_low_surrogate :: "16 word \<Rightarrow> bool" where
  "is_low_surrogate c = (0xDC00 \<le> c \<and> c \<le> 0xDFFF)"

fun Buffer_from_string :: "jsstring \<Rightarrow> Buffer" where
  "Buffer_from_string [] = []"
| "Buffer_from_string [c] =
     (if is_high_surrogate c \<or> is_low_surrogate c then [0xEF, 0xBF, 0xBD]
      else utf8_of_codepoint (unat c))"
| "Buffer_from_string (c # d # cs) =
     (if is_high_surrogate c \<and> is_low_surrogate d
      then utf8_of_codepoint (0x10000 + (unat c - 0xD800) * 0x400 + (unat d - 0xDC00))
             @ Buffer_from_string cs
      else if is_high_surrogate c \<or> is_low_surrogate c
      then [0xEF, 0xBF, 0xBD] @ Buffer_from_string (d # cs)
      else utf8_of_codepoint (unat c) @ Buffer_from_string (d # cs))"

text \<open>\<open>Buffer.from(x)\<close> for \<open>x: Buffer | string\<close>: a copy of the buffer, or the UTF-8 of the string.\<close>

definition Buffer_from :: "Buffer + jsstring \<Rightarrow> Buffer" where
  "Buffer_from x = (case x of Inl b \<Rightarrow> b | Inr s \<Rightarrow> Buffer_from_string s)"

text \<open>The table \<open>cp437\<close>, a string of 256 code units, as the source stores it.\<close>

definition cp437 :: jsstring where
  "cp437 = [
    0x0000, 0x263A, 0x263B, 0x2665, 0x2666, 0x2663, 0x2660, 0x2022,
    0x25D8, 0x25CB, 0x25D9, 0x2642, 0x2640, 0x266A, 0x266B, 0x263C,
    0x25BA, 0x25C4, 0x2195, 0x203C, 0x00B6, 0x00A7, 0x25AC, 0x21A8,
    0x2191, 0x2193, 0x2192, 0x2190, 0x221F, 0x2194, 0x25B2, 0x25BC,
    0x0020, 0x0021, 0x0022, 0x0023, 0x0024, 0x0025, 0x0026, 0x0027,
    0x0028, 0x0029, 0x002A, 0x002B, 0x002C, 0x002D, 0x002E, 0x002F,
    0x0030, 0x0031, 0x0032, 0x0033, 0x0034, 0x0035, 0x0036, 0x0037,
    0x0038, 0x0039, 0x003A, 0x003B, 0x003C, 0x003D, 0x003E, 0x003F,
    0x0040, 0x0041, 0x0042, 0x0043, 0x0044, 0x0045, 0x0046, 0x0047,
    0x0048, 0x0049, 0x004A, 0x004B, 0x004C, 0x004D, 0x004E, 0x004F,
    0x0050, 0x0051, 0x0052, 0x0053, 0x0054, 0x0055, 0x0056, 0x0057,
    0x0058, 0x0059, 0x005A, 0x005B, 0x005C, 0x005D, 0x005E, 0x005F,
    0x0060, 0x0061, 0x0062, 0x0063, 0x0064, 0x0065, 0x0066, 0x0067,
    0x0068, 0x0069, 0x006A, 0x006B, 0x006C, 0x006D, 0x006E, 0x006F,
    0x0070, 0x0071, 0x0072, 0x0073, 0x0074, 0x0075, 0x0076, 0x0077,
    0x0078, 0x0079, 0x007A, 0x007B, 0x007C, 0x007D, 0x007E, 0x2302,
    0x00C7, 0x00FC, 0x00E9, 0x00E2, 0x00E4, 0x00E0, 0x00E5, 0x00E7,
    0x00EA, 0x00EB, 0x00E8, 0x00EF, 0x00EE, 0x00EC, 0x00C4, 0x00C5,
    0x00C9, 0x00E6, 0x00C6, 0x00F4, 0x00F6, 0x00F2, 0x00FB, 0x00F9,
    0x00FF, 0x00D6, 0x00DC, 0x00A2, 0x00A3, 0x00A5, 0x20A7, 0x0192,
    0x00E1, 0x00ED, 0x00F3, 0x00FA, 0x00F1, 0x00D1, 0x00AA, 0x00BA,
    0x00BF, 0x2310, 0x00AC, 0x00BD, 0x00BC, 0x00A1, 0x00AB, 0x00BB,
    0x2591, 0x2592, 0x2593, 0x2502, 0x2524, 0x2561, 0x2562, 0x2556,
    0x2555, 0x2563, 0x2551, 0x2557, 0x255D, 0x255C, 0x255B, 0x2510,
    0x2514, 0x2534, 0x252C, 0x251C, 0x2500, 0x253C, 0x255E, 0x255F,
    0x255A, 0x2554, 0x2569, 0x2566, 0x2560, 0x2550, 0x256C, 0x2567,
    0x2568, 0x2564, 0x2565, 0x2559, 0x2558, 0x2552, 0x2553, 0x256B,
    0x256A, 0x2518, 0x250C, 0x2588, 0x2584, 0x258C, 0x2590, 0x2580,
    0x03B1, 0x00DF, 0x0393, 0x03C0, 0x03A3, 0x03C3, 0x00B5, 0x03C4,
    0x03A6, 0x0398, 0x03A9, 0x03B4, 0x221E, 0x03C6, 0x03B5, 0x2229,
    0x2261, 0x00B1, 0x2265, 0x2264, 0x2320, 0x2321, 0x00F7, 0x2248,
    0x00B0, 0x2219, 0x00B7, 0x221A, 0x207F, 0x00B2, 0x25A0, 0x00A0]"

text \<open>
  \<open>decodeCp437(buffer, start)\<close>; no caller passes \<open>end\<close>, which defaults to the
  buffer's length. A byte indexes the table, which has an entry for each of them.
\<close>

definition decodeCp437 :: "Buffer \<Rightarrow> nat \<Rightarrow> jsstring" where
  "decodeCp437 buffer start = map (\<lambda>b. cp437 ! unat b) (drop start buffer)"

text \<open>
  The reverse table is filled by a loop over the table in index order, a later index
  overwriting an earlier one for the same character.
\<close>

fun reverse_table :: "jsstring \<Rightarrow> int \<Rightarrow> (16 word \<rightharpoonup> int) \<Rightarrow> (16 word \<rightharpoonup> int)" where
  "reverse_table [] i m = m"
| "reverse_table (c # cs) i m = reverse_table cs (i + 1) (m(c \<mapsto> i))"

definition reverseCp437 :: "16 word \<rightharpoonup> int" where
  "reverseCp437 = reverse_table cp437 0 Map.empty"

definition printable_ascii :: "jsstring \<Rightarrow> bool" where
  \<comment> \<open>\<open>/^[\x20-\x7e]*$/.test(string)\<close>\<close>
  "printable_ascii s = list_all (\<lambda>c. 0x20 \<le> c \<and> c \<le> 0x7e) s"

fun encodeCp437_slow :: "jsstring \<Rightarrow> error + Buffer" where
  "encodeCp437_slow [] = Inr []"
| "encodeCp437_slow (c # cs) =
     (case reverseCp437 c of
        None \<Rightarrow> Inl (NotEncodableInCp437 c)
      | Some b \<Rightarrow> (case encodeCp437_slow cs of Inl e \<Rightarrow> Inl e | Inr r \<Rightarrow> Inr (word_of_int b # r)))"

definition encodeCp437 :: "jsstring \<Rightarrow> error + Buffer" where
  "encodeCp437 string =
     (if printable_ascii string then Inr (Buffer_from_string string)
      else encodeCp437_slow string)"

section \<open>Dates\<close>

text \<open>
  A JavaScript \<open>Date\<close> is its time value: milliseconds since 1970-01-01T00:00:00Z.
  The UTC accessors and \<open>Date.UTC\<close> are the platform's; the definitions below follow
  ECMA-262 (Day, DayFromYear, YearFromTime, MonthFromTime, DateFromTime, MakeTime,
  MakeDay, MakeDate). \<open>YearFromTime\<close> is specified as the largest year that starts at or
  before the time; here it is found by a search downwards from an upper estimate. The
  final \<open>TimeClip\<close> of \<open>Date.UTC\<close> is the identity on every date a DOS date can
  name and is left out.
\<close>

type_synonym Date = int

definition msPerDay :: int where "msPerDay = 86400000"

definition Day :: "Date \<Rightarrow> int" where
  "Day t = t div msPerDay"

definition TimeWithinDay :: "Date \<Rightarrow> int" where
  "TimeWithinDay t = t mod msPerDay"

definition DaysInYear :: "int \<Rightarrow> int" where
  "DaysInYear y =
     (if y mod 4 \<noteq> 0 then 365 else if y mod 100 \<noteq> 0 then 366
      else if y mod 400 \<noteq> 0 then 365 else 366)"

definition DayFromYear :: "int \<Rightarrow> int" where
  "DayFromYear y =
     365 * (y - 1970) + (y - 1969) div 4 - (y - 1901) div 100 + (y - 1601) div 400"

fun year_search :: "nat \<Rightarrow> int \<Rightarrow> int \<Rightarrow> int" where
  "year_search 0 y d = y"
| "year_search (Suc n) y d = (if DayFromYear y \<le> d then y else year_search n (y - 1) d)"

definition YearFromTime :: "Date \<Rightarrow> int" where
  "YearFromTime t =
     (let d = Day t
      in year_search (nat \<bar>d div 365 - d div 366\<bar> + 1) (1970 + max (d div 365) (d div 366)) d)"

definition InLeapYear :: "Date \<Rightarrow> int" where
  "InLeapYear t = (if DaysInYear (YearFromTime t) = 366 then 1 else 0)"

definition DayWithinYear :: "Date \<Rightarrow> int" where
  "DayWithinYear t = Day t - DayFromYear (YearFromTime t)"

definition MonthFromTime :: "Date \<Rightarrow> int" where
  "MonthFromTime t =
     (let d = DayWithinYear t; l = InLeapYear t
      in if d < 31 then 0 else if d < 59 + l then 1 else if d < 90 + l then 2
         else if d < 120 + l then 3 else if d < 151 + l then 4 else if d < 181 + l then 5
         else if d < 212 + l then 6 else if d < 243 + l then 7 else if d < 273 + l then 8
         else if d < 304 + l then 9 else if d < 334 + l then 10 else 11)"

definition days_before_month :: "int \<Rightarrow> int \<Rightarrow> int" where
  \<comment> \<open>the day within the year on which month \<open>m\<close> (0..11) starts; \<open>l\<close> is 1 in a leap year\<close>
  "days_before_month m l =
     (if m = 0 then 0 else if m = 1 then 31 else if m = 2 then 59 + l
      else if m = 3 then 90 + l else if m = 4 then 120 + l else if m = 5 then 151 + l
      else if m = 6 then 181 + l else if m = 7 then 212 + l else if m = 8 then 243 + l
      else if m = 9 then 273 + l else if m = 10 then 304 + l else 334 + l)"

definition DateFromTime :: "Date \<Rightarrow> int" where
  "DateFromTime t =
     DayWithinYear t - days_before_month (MonthFromTime t) (InLeapYear t) + 1"

definition getUTCFullYear :: "Date \<Rightarrow> int" where "getUTCFullYear t = YearFromTime t"
definition getUTCMonth :: "Date \<Rightarrow> int" where "getUTCMonth t = MonthFromTime t"
definition getUTCDate :: "Date \<Rightarrow> int" where "getUTCDate t = DateFromTime t"
definition getUTCHours :: "Date \<Rightarrow> int" where "getUTCHours t = (t div 3600000) mod 24"
definition getUTCMinutes :: "Date \<Rightarrow> int" where "getUTCMinutes t = (t div 60000) mod 60"
definition getUTCSeconds :: "Date \<Rightarrow> int" where "getUTCSeconds t = (t div 1000) mod 60"
definition getUTCMilliseconds :: "Date \<Rightarrow> int" where "getUTCMilliseconds t = t mod 1000"

definition MakeTime :: "int \<Rightarrow> int \<Rightarrow> int \<Rightarrow> int \<Rightarrow> int" where
  "MakeTime hour minute sec ms = hour * 3600000 + minute * 60000 + sec * 1000 + ms"

definition MakeDay :: "int \<Rightarrow> int \<Rightarrow> int \<Rightarrow> int" where
  "MakeDay year month date =
     (let ym = year + month div 12; mn = month mod 12
      in DayFromYear ym + days_before_month mn (if DaysInYear ym = 366 then 1 else 0) + date - 1)"

definition MakeDate :: "int \<Rightarrow> int \<Rightarrow> int" where
  "MakeDate day time = day * msPerDay + time"

definition Date_UTC :: "int \<Rightarrow> int \<Rightarrow> int \<Rightarrow> int \<Rightarrow> int \<Rightarrow> int \<Rightarrow> Date" where
  "Date_UTC year month date hours minutes seconds =
     (let yr = (if 0 \<le> year \<and> year \<le> 99 then 1900 + year else year)
      in MakeDate (MakeDay yr month date) (MakeTime hours minutes seconds 0))"

subsection \<open>DOS date and time (lib/zip.js, lib/unzip.js)\<close>

record DosDateTime =
  dos_date :: int
  dos_time :: int

definition dateToDosDateTime :: "Date \<Rightarrow> DosDateTime" where
  "dateToDosDateTime date = \<lparr>
     dos_date = (getUTCDate date AND 0x1f)
       OR push_bit 5 ((getUTCMonth date + 1) AND 0xf)
       OR push_bit 9 ((getUTCFullYear date - 1980) AND 0x7f),
     dos_time = (getUTCSeconds date div 2)
       OR push_bit 5 (getUTCMinutes date AND 0x3f)
       OR push_bit 11 (getUTCHours date AND 0x1f) \<rparr>"

definition dosDateTimeToDate :: "int \<Rightarrow> int \<Rightarrow> Date" where
  "dosDateTimeToDate date time =
     Date_UTC
       ((drop_bit 9 date AND 0x7f) + 1980)
       ((drop_bit 5 date AND 0xf) - 1)
       (date AND 0x1f)
       (drop_bit 11 time AND 0x1f)
       (drop_bit 5 time AND 0x3f)
       ((time AND 0x1f) * 2)"

section \<open>Reading (lib/read.js, lib/unzip.js)\<close>

text \<open>
  The source is read through \<open>read(handle, position, length)\<close>. The model is its
  Buffer case, in which the handle is the archive's bytes; a file handle delivers the
  same bytes of the file, and fails with the same error when they run out.
\<close>

definition read :: "Buffer \<Rightarrow> int \<Rightarrow> int \<Rightarrow> error + Buffer" where
  "read handle position len =
     (if int (length handle) < len + position then Inl UnexpectedEOF
      else Inr (subarray handle position (position + len)))"

lemma le_value_nonneg: "0 \<le> le_value bs"
  by (induction bs) simp_all

lemma readUInt16LE_nonneg: "readUInt16LE buf off = Inr v \<Longrightarrow> 0 \<le> v"
  by (auto simp: readUInt16LE_def readUIntLE_def le_value_nonneg split: if_splits)

function parseExtraFields :: "Buffer \<Rightarrow> int \<Rightarrow> int \<Rightarrow> error + ExtraField list" where
  "parseExtraFields buffer start end' =
     (if start < end' then
        (if end' - start < 4 then Inl ExtraFieldHeaderExceeds
         else (case readUInt16LE buffer start of
           Inl e \<Rightarrow> Inl e
         | Inr fid \<Rightarrow>
            (case readUInt16LE buffer (start + 2) of
               Inl e \<Rightarrow> Inl e
             | Inr size' \<Rightarrow>
                if start + 4 + size' > end' then Inl ExtraFieldLengthExceeds
                else (case parseExtraFields buffer (start + 4 + size') end' of
                  Inl e \<Rightarrow> Inl e
                | Inr rest \<Rightarrow>
                    Inr ((fid, subarray buffer (start + 4) (start + 4 + size')) # rest)))))
      else Inr [])"
  by pat_completeness auto
termination
  by (relation "measure (\<lambda>(buffer, start, end'). nat (end' - start))")
     (auto dest: readUInt16LE_nonneg)

record LocalFileHeader =
  lf_versionNeededToExtract :: int
  lf_generalPurposeBitFlag :: int
  lf_compressionMethod :: int
  lf_fileLastModificationTime :: int
  lf_fileLastModificationDate :: int
  lf_crc32 :: int
  lf_compressedSize :: int
  lf_uncompressedSize :: int
  lf_fileNameLength :: int
  lf_extraFieldsLength :: int
  lf_fileName :: Buffer
  lf_extraFields :: "ExtraField list"

definition readLocalFileHeader :: "Buffer \<Rightarrow> int \<Rightarrow> error + LocalFileHeader" where
  "readLocalFileHeader handle offset =
     bind (read handle offset 30) (\<lambda>buffer.
     bind (readUInt32LE buffer 0) (\<lambda>signature.
     if signature \<noteq> 0x04034b50 then Inl (InvalidLocalFileHeaderSignature signature)
     else
     bind (readUInt16LE buffer 26) (\<lambda>fileNameLength.
     bind (readUInt16LE buffer 28) (\<lambda>extraFieldsLength.
     bind (read handle (offset + 30) (fileNameLength + extraFieldsLength)) (\<lambda>rest.
     bind (readUInt16LE buffer 4) (\<lambda>versionNeededToExtract.
     bind (readUInt16LE buffer 6) (\<lambda>generalPurposeBitFlag.
     bind (readUInt16LE buffer 8) (\<lambda>compressionMethod.
     bind (readUInt16LE buffer 10) (\<lambda>fileLastModificationTime.
     bind (readUInt16LE buffer 12) (\<lambda>fileLastModificationDate.
     bind (readUInt32LE buffer 14) (\<lambda>crc.
     bind (readUInt32LE buffer 18) (\<lambda>compressedSize'.
     bind (readUInt32LE buffer 22) (\<lambda>uncompressedSize'.
     bind (parseExtraFields rest fileNameLength (int (length rest))) (\<lambda>extraFields.
       Inr \<lparr>
         lf_versionNeededToExtract = versionNeededToExtract,
         lf_generalPurposeBitFlag = generalPurposeBitFlag,
         lf_compressionMethod = compressionMethod,
         lf_fileLastModificationTime = fileLastModificationTime,
         lf_fileLastModificationDate = fileLastModificationDate,
         lf_crc32 = crc,
         lf_compressedSize = compressedSize',
         lf_uncompressedSize = uncompressedSize',
         lf_fileNameLength = fileNameLength,
         lf_extraFieldsLength = extraFieldsLength,
         lf_fileName = subarray rest 0 fileNameLength,
         lf_extraFields = extraFields \<rparr>))))))))))))))"

text \<open>The central directory file header as \<open>readCentralDirectoryFileHeader\<close> returns it.\<close>

record CentralDirectoryFileHeader =
  cd_versionMadeBy :: int
  cd_versionNeededToExtract :: int
  cd_generalPurposeBitFlag :: int
  cd_compressionMethod :: int
  cd_fileLastModificationTime :: int
  cd_fileLastModificationDate :: int
  cd_crc32 :: int
  cd_compressedSize :: int
  cd_uncompressedSize :: int
  cd_fileNameLength :: int
  cd_extraFieldsLength :: int
  cd_commentLength :: int
  cd_diskNumberStart :: int
  cd_internalFileAttributes :: int
  cd_externalFileAttributes :: int
  cd_relativeOffsetOfLocalHeader :: int
  cd_fileName :: Buffer
  cd_extraFields :: "ExtraField list"
  cd_comment :: Buffer

subsection \<open>The ZIP64 block of \<open>readEntry\<close>\<close>

text \<open>
  The part of \<open>readEntry\<close> that fills in \<open>uncompressedSize\<close>, \<open>compressedSize\<close>,
  \<open>relativeOffsetOfLocalHeader\<close> and \<open>diskNumberStart\<close> of the entry, from the header
  and its ZIP64 extended information extra field. Each of its four steps takes the
  cursor into the payload and returns the field with the cursor after it.
\<close>

record Zip64Resolved =
  r_uncompressedSize :: int
  r_compressedSize :: int
  r_relativeOffsetOfLocalHeader :: int
  r_diskNumberStart :: int

fun find_zip64Eief :: "ExtraField list \<Rightarrow> Buffer option" where
  "find_zip64Eief [] = None"
| "find_zip64Eief ((fid, data) # fs) = (if fid = 0x0001 then Some data else find_zip64Eief fs)"

definition read_zip64_slot :: "Buffer \<Rightarrow> int \<Rightarrow> int \<Rightarrow> error \<Rightarrow> error + int \<times> int" where
  \<comment> \<open>an 8-byte slot at the cursor, or the given error when the payload is too short\<close>
  "read_zip64_slot zip64EiefBuffer cursor' n missing =
     (if cursor' + n > int (length zip64EiefBuffer) then Inl missing
      else bind (readUIntLE (nat n) zip64EiefBuffer cursor') (\<lambda>v. Inr (v, cursor' + n)))"

definition readEntry_zip64 :: "CentralDirectoryFileHeader \<Rightarrow> error + Zip64Resolved" where
  "readEntry_zip64 centralDirectoryFileHeader =
     (if cd_uncompressedSize centralDirectoryFileHeader = 0xffffffff
         \<or> cd_compressedSize centralDirectoryFileHeader = 0xffffffff
         \<or> cd_relativeOffsetOfLocalHeader centralDirectoryFileHeader = 0xffffffff
         \<or> cd_diskNumberStart centralDirectoryFileHeader = 0xffff
      then
        (case find_zip64Eief (cd_extraFields centralDirectoryFileHeader) of
           None \<Rightarrow> Inl ExpectedZip64Eief
         | Some zip64EiefBuffer \<Rightarrow>
             bind
               (if cd_uncompressedSize centralDirectoryFileHeader = 0xffffffff
                then read_zip64_slot zip64EiefBuffer 0 8 Zip64NoUncompressedSize
                else Inr (cd_uncompressedSize centralDirectoryFileHeader, 0))
               (\<lambda>(uncompressedSize', cursor1).
             bind
               (if cd_compressedSize centralDirectoryFileHeader = 0xffffffff
                then read_zip64_slot zip64EiefBuffer cursor1 8 Zip64NoCompressedSize
                else Inr (cd_compressedSize centralDirectoryFileHeader, cursor1))
               (\<lambda>(compressedSize', cursor2).
             bind
               (if cd_relativeOffsetOfLocalHeader centralDirectoryFileHeader = 0xffffffff
                then read_zip64_slot zip64EiefBuffer cursor2 8 Zip64NoRelativeHeaderOffset
                else Inr (cd_relativeOffsetOfLocalHeader centralDirectoryFileHeader, cursor2))
               (\<lambda>(relativeOffsetOfLocalHeader', cursor3).
             bind
               (if cd_relativeOffsetOfLocalHeader centralDirectoryFileHeader = 0xffffffff
                then read_zip64_slot zip64EiefBuffer cursor3 4 Zip64NoDiskNumberStart
                else Inr (cd_diskNumberStart centralDirectoryFileHeader, cursor3))
               (\<lambda>(diskNumberStart', cursor4).
               Inr \<lparr>
                 r_uncompressedSize = uncompressedSize',
                 r_compressedSize = compressedSize',
                 r_relativeOffsetOfLocalHeader = relativeOffsetOfLocalHeader',
                 r_diskNumberStart = diskNumberStart' \<rparr>)))))
      else Inr \<lparr>
        r_uncompressedSize = cd_uncompressedSize centralDirectoryFileHeader,
        r_compressedSize = cd_compressedSize centralDirectoryFileHeader,
        r_relativeOffsetOfLocalHeader = cd_relativeOffsetOfLocalHeader centralDirectoryFileHeader,
        r_diskNumberStart = cd_diskNumberStart centralDirectoryFileHeader \<rparr>)"

subsection \<open>The archive opener\<close>

record Unzip =
  u_handle :: Buffer
  u_centralDirectoryOffset :: int
  u_fileSize :: int
  u_entryCount :: int
  u_comment :: "Buffer + jsstring"

text \<open>
  What \<open>fromRandomAccessReader\<close> does at a position \<open>i\<close> of the trailing window where
  it has found the signature: the body of its loop after the signature test. Every
  branch of it returns or throws; none continues the loop.
\<close>

definition eocdr_candidate ::
  "Buffer \<Rightarrow> int \<Rightarrow> bool \<Rightarrow> int \<Rightarrow> Buffer \<Rightarrow> int \<Rightarrow> error + Unzip" where
  "eocdr_candidate handle totalSize decodeStrings bufferReadStart buffer i =
     (let eocdrBuffer = drop (nat i) buffer in
      bind (readUInt16LE eocdrBuffer 4) (\<lambda>diskNumber.
      if diskNumber \<noteq> 0 then Inl (MultiDisk diskNumber)
      else
      bind (readUInt16LE eocdrBuffer 10) (\<lambda>entryCount.
      bind (readUInt32LE eocdrBuffer 16) (\<lambda>centralDirectoryOffset.
      bind (readUInt16LE eocdrBuffer 20) (\<lambda>commentLength.
      let expectedCommentLength = int (length eocdrBuffer) - 22 in
      if commentLength \<noteq> expectedCommentLength
      then Inl (InvalidCommentLength expectedCommentLength commentLength)
      else
      let comment' = (if decodeStrings then Inr (decodeCp437 eocdrBuffer 22)
                      else Inl (drop 22 eocdrBuffer)) in
      if entryCount \<noteq> 0xffff \<and> centralDirectoryOffset \<noteq> 0xffffffff
      then Inr \<lparr> u_handle = handle, u_centralDirectoryOffset = centralDirectoryOffset,
             u_fileSize = totalSize, u_entryCount = entryCount, u_comment = comment' \<rparr>
      else
      bind (read handle (bufferReadStart + (i - 20)) 20) (\<lambda>zip64EocdlBuffer.
      bind (readUInt32LE zip64EocdlBuffer 0) (\<lambda>sig1.
      if sig1 \<noteq> 0x07064b50 then Inl InvalidZip64EocdlSignature
      else
      bind (readBigUInt64LE zip64EocdlBuffer 8) (\<lambda>zip64EocdrOffset.
      bind (read handle zip64EocdrOffset 56) (\<lambda>zip64EocdrBuffer.
      bind (readUInt32LE zip64EocdrBuffer 0) (\<lambda>sig2.
      if sig2 \<noteq> 0x06064b50 then Inl InvalidZip64EocdrSignature
      else
      bind (readBigUInt64LE zip64EocdrBuffer 32) (\<lambda>entryCount64.
      bind (readBigUInt64LE zip64EocdrBuffer 48) (\<lambda>centralDirectoryOffset64.
        Inr \<lparr> u_handle = handle, u_centralDirectoryOffset = centralDirectoryOffset64,
              u_fileSize = totalSize, u_entryCount = entryCount64,
              u_comment = comment' \<rparr>))))))))))))"

text \<open>
  The loop \<open>for (i = bufferSize - 22; i >= 0; i--)\<close>: \<open>eocdr_scan \<dots> (Suc i)\<close> is the
  iteration at \<open>i\<close>, and \<open>eocdr_scan \<dots> 0\<close> is the loop's exit.
\<close>

fun eocdr_scan :: "Buffer \<Rightarrow> int \<Rightarrow> bool \<Rightarrow> int \<Rightarrow> Buffer \<Rightarrow> nat \<Rightarrow> error + Unzip" where
  "eocdr_scan handle totalSize decodeStrings bufferReadStart buffer 0 =
     Inl EocdrSignatureNotFound"
| "eocdr_scan handle totalSize decodeStrings bufferReadStart buffer (Suc i) =
     (case readUInt32LE buffer (int i) of
        Inl e \<Rightarrow> Inl e
      | Inr sig \<Rightarrow>
          if sig \<noteq> 0x06054b50
          then eocdr_scan handle totalSize decodeStrings bufferReadStart buffer i
          else eocdr_candidate handle totalSize decodeStrings bufferReadStart buffer (int i))"

definition fromRandomAccessReader :: "Buffer \<Rightarrow> int \<Rightarrow> bool \<Rightarrow> error + Unzip" where
  "fromRandomAccessReader handle totalSize decodeStrings =
     (let eocdrWithoutCommentSize = 22;
          maxCommentSize = 0xffff;
          bufferSize = min totalSize (eocdrWithoutCommentSize + maxCommentSize);
          bufferReadStart = totalSize - bufferSize
      in bind (read handle bufferReadStart bufferSize) (\<lambda>buffer.
           eocdr_scan handle totalSize decodeStrings bufferReadStart buffer
             (nat (bufferSize - eocdrWithoutCommentSize + 1))))"

definition fromBuffer :: "Buffer \<Rightarrow> bool \<Rightarrow> error + Unzip" where
  "fromBuffer buffer decodeStrings = fromRandomAccessReader buffer (int (length buffer)) decodeStrings"

subsection \<open>Entries and their read streams\<close>

text \<open>
  The read-side entry. A name or comment is a Buffer (\<open>Inl\<close>) when the archive was
  opened with \<open>decodeStrings: false\<close>, and a string (\<open>Inr\<close>) otherwise;
  \<open>compressed\<close> is \<open>None\<close> for a method that is neither stored nor deflate.
\<close>

record UnzipEntry =
  centralDirectoryFileHeader :: CentralDirectoryFileHeader
  ue_fileName :: "Buffer + jsstring"
  ue_comment :: "Buffer + jsstring"
  ue_modificationDate :: Date
  ue_compressedSize :: int
  ue_uncompressedSize :: int
  ue_relativeOffsetOfLocalHeader :: int
  ue_diskNumberStart :: int
  ue_encrypted :: bool
  ue_compressed :: "bool option"

text \<open>
  A readable stream, as its consumer sees it: the chunks it delivers, and then its
  end, or the error it fails with (\<open>failure\<close>, the stream's \<open>error\<close> event), or
  nothing more. The last case is \<open>uncaught\<close>: an exception that one of the stream's
  callbacks threw where Node does not catch it. Such an exception leaves through the
  caller of \<open>write\<close> as an uncaught exception of the process; the stream is not
  destroyed with it, and neither ends nor fails.
\<close>

record Readable =
  chunks :: "Buffer list"
  failure :: "error option"
  uncaught :: "error option"

text \<open>
  The collaborators: zlib's running CRC-32, its one-shot and streaming deflate, and
  its streaming inflate. \<open>deflated_before_error\<close> is what a deflate stream had put out
  when its source failed or stopped. \<open>fails_unread\<close> tells of a stream whether it
  comes to its error also when its consumer has stopped reading before it.
\<close>

record platform =
  zlib_crc32 :: "Buffer \<Rightarrow> int \<Rightarrow> int"
  zlib_deflateRaw :: "Buffer \<Rightarrow> error + Buffer"
  createDeflateRaw :: "Buffer list \<Rightarrow> Buffer list"
  deflated_before_error :: "Buffer list \<Rightarrow> Buffer list"
  createInflateRaw :: "Buffer list \<Rightarrow> Readable"
  fails_unread :: "Readable \<Rightarrow> bool"

record UnzipEntryOptions =
  uo_start :: "int option"
  uo_end :: "int option"
  uo_decompress :: "bool option"
  uo_decrypt :: "bool option"
  uo_validateData :: "bool option"

definition MAX_SAFE_INTEGER :: int where "MAX_SAFE_INTEGER = 9007199254740991"

definition createReadStream :: "Buffer \<Rightarrow> int \<Rightarrow> int \<Rightarrow> error + Readable" where
  \<comment> \<open>\<open>Readable.from(buffer)\<close>, an object-mode stream, delivers the buffer as one chunk,
      also when it is empty\<close>
  "createReadStream handle start end' =
     (if start \<ge> MAX_SAFE_INTEGER \<or> end' \<ge> MAX_SAFE_INTEGER then Inl BuffersDontSupportBigints
      else Inr \<lparr> chunks = [subarray handle start end'], failure = None, uncaught = None \<rparr>)"

text \<open>
  The validating tap, a \<open>Transform\<close>: \<open>tap_transform\<close> runs its \<open>transform\<close> over the
  chunks that arrive, from the running byte count and CRC, and returns the chunks that
  came out with either the error it threw or the final count and CRC. A chunk handed
  to \<open>callback(undefined, chunk)\<close> is pushed to the readable side, which is not in
  object mode and drops an empty chunk. \<open>tap_flush\<close> is its \<open>flush\<close>, with the error
  it throws.
\<close>

fun tap_transform ::
  "platform \<Rightarrow> UnzipEntry \<Rightarrow> int \<Rightarrow> int \<Rightarrow> Buffer list \<Rightarrow> Buffer list \<times> (error + int \<times> int)" where
  "tap_transform p entry bytes crc [] = ([], Inr (bytes, crc))"
| "tap_transform p entry bytes crc (chunk # rest) =
     (let bytes' = bytes + int (length chunk) in
      if bytes' > ue_uncompressedSize entry
      then ([], Inl (TooManyBytes (ue_uncompressedSize entry) bytes'))
      else (case tap_transform p entry bytes' (zlib_crc32 p chunk crc) rest of
              (out, r) \<Rightarrow> (if chunk = [] then out else chunk # out, r)))"

definition tap_flush :: "UnzipEntry \<Rightarrow> int \<Rightarrow> int \<Rightarrow> error option" where
  "tap_flush entry bytes crc =
     (if bytes \<noteq> ue_uncompressedSize entry
      then Some (NotEnoughBytes (ue_uncompressedSize entry) bytes)
      else if crc \<noteq> cd_crc32 (centralDirectoryFileHeader entry) then Some UnexpectedChecksum
      else None)"

text \<open>
  A stage of the \<open>pipeline\<close>: when the stage before it fails, the pipeline destroys the
  later stages with that error, after the chunks that had come through; when the
  stage before it stops without end or error, so does this one.

  The tap reports its errors with \<open>throw\<close>, not with \<open>callback(err)\<close>. Node calls
  \<open>flush\<close> inside a \<open>try\<close> and destroys the stream with what it catches, so an error
  of \<open>flush\<close> is the stream's failure. It calls \<open>transform\<close> unguarded: an error
  thrown there is no failure of the stream but an uncaught exception, after which the
  tap passes nothing on.
\<close>

definition validating_tap :: "platform \<Rightarrow> UnzipEntry \<Rightarrow> Readable \<Rightarrow> Readable" where
  "validating_tap p entry source =
     (case tap_transform p entry 0 0 (chunks source) of
        (out, Inl e) \<Rightarrow> \<lparr> chunks = out, failure = None, uncaught = Some e \<rparr>
      | (out, Inr (bytes, crc)) \<Rightarrow>
          (case failure source of
             Some e \<Rightarrow> \<lparr> chunks = out, failure = Some e, uncaught = None \<rparr>
           | None \<Rightarrow>
               (case uncaught source of
                  Some e \<Rightarrow> \<lparr> chunks = out, failure = None, uncaught = Some e \<rparr>
                | None \<Rightarrow>
                    \<lparr> chunks = out, failure = tap_flush entry bytes crc, uncaught = None \<rparr>)))"

definition inflate_stage :: "platform \<Rightarrow> Readable \<Rightarrow> Readable" where
  "inflate_stage p source =
     (case failure source of
        Some e \<Rightarrow> \<lparr> chunks = chunks (createInflateRaw p (chunks source)), failure = Some e,
                    uncaught = None \<rparr>
      | None \<Rightarrow>
          (case uncaught source of
             Some e \<Rightarrow> \<lparr> chunks = chunks (createInflateRaw p (chunks source)), failure = None,
                         uncaught = Some e \<rparr>
           | None \<Rightarrow> createInflateRaw p (chunks source)))"

definition decompress_active :: "UnzipEntryOptions \<Rightarrow> LocalFileHeader \<Rightarrow> bool" where
  "decompress_active options localFileHeader =
     (lf_compressionMethod localFileHeader = cm_deflate \<and> uo_decompress options \<noteq> Some False)"

definition validation_active :: "UnzipEntryOptions \<Rightarrow> LocalFileHeader \<Rightarrow> bool" where
  "validation_active options localFileHeader =
     (uo_validateData options \<noteq> Some False
      \<and> (lf_compressionMethod localFileHeader = cm_none
         \<or> decompress_active options localFileHeader))"

text \<open>
  \<open>openReadStream\<close> up to the point where the validating tap is added: the checks of
  the options, the local file header, the byte range and the optional inflate. It
  returns the local header with the stream that the tap, if any, reads from.
\<close>

definition openReadStream_source ::
  "platform \<Rightarrow> Buffer \<Rightarrow> UnzipEntry \<Rightarrow> UnzipEntryOptions \<Rightarrow> error + LocalFileHeader \<times> Readable" where
  "openReadStream_source p handle entry options =
     bind
       (if uo_start options \<noteq> None \<or> uo_end options \<noteq> None
        then (if ue_compressed entry = Some True \<and> uo_decompress options \<noteq> Some False
              then Inl RangeNotAllowedCompressed
              else if ue_encrypted entry \<and> uo_decrypt options \<noteq> Some False
              then Inl RangeNotAllowedEncrypted
              else Inr ())
        else Inr ())
       (\<lambda>_.
     bind
       (case uo_start options of
          None \<Rightarrow> Inr 0
        | Some s \<Rightarrow> if s < 0 then Inl StartNegative
                    else if s > ue_compressedSize entry then Inl StartTooLarge
                    else Inr s)
       (\<lambda>relativeStart.
     bind
       (case uo_end options of
          None \<Rightarrow> Inr (ue_compressedSize entry)
        | Some e \<Rightarrow> if e < 0 then Inl EndNegative
                    else if e > ue_compressedSize entry then Inl EndTooLarge
                    else if e < relativeStart then Inl EndBeforeStart
                    else Inr e)
       (\<lambda>relativeEnd.
     bind (readLocalFileHeader handle (ue_relativeOffsetOfLocalHeader entry)) (\<lambda>localFileHeader.
     let fileDataStart = ue_relativeOffsetOfLocalHeader entry
           + (30 + lf_fileNameLength localFileHeader + lf_extraFieldsLength localFileHeader) in
     if lf_compressionMethod localFileHeader \<noteq> cm_none
        \<and> lf_compressionMethod localFileHeader \<noteq> cm_deflate
     then Inl (UnsupportedCompressionMethod (lf_compressionMethod localFileHeader))
     else
     bind (createReadStream handle (fileDataStart + relativeStart) (fileDataStart + relativeEnd))
       (\<lambda>readStream.
       Inr (localFileHeader,
            if decompress_active options localFileHeader then inflate_stage p readStream
            else readStream))))))"

definition openReadStream ::
  "platform \<Rightarrow> Buffer \<Rightarrow> UnzipEntry \<Rightarrow> UnzipEntryOptions \<Rightarrow> error + Readable" where
  "openReadStream p handle entry options =
     bind (openReadStream_source p handle entry options) (\<lambda>(localFileHeader, source).
       Inr (if validation_active options localFileHeader then validating_tap p entry source
            else source))"

text \<open>The trailing window of an archive: its last \<open>min(totalSize, 22 + 65535)\<close> bytes.\<close>

definition trailing_window :: "Buffer \<Rightarrow> Buffer" where
  "trailing_window buffer = drop (length buffer - min (length buffer) (22 + 0xffff)) buffer"

section \<open>The writer (lib/zip.js)\<close>

subsection \<open>Paths and entries\<close>

fun split_on :: "16 word \<Rightarrow> jsstring \<Rightarrow> jsstring list" where
  \<comment> \<open>\<open>string.split(sep)\<close> for a one-character separator\<close>
  "split_on sep [] = [[]]"
| "split_on sep (c # cs) =
     (if c = sep then [] # split_on sep cs
      else (case split_on sep cs of [] \<Rightarrow> [[c]] | seg # segs \<Rightarrow> (c # seg) # segs))"

definition is_ascii_letter :: "16 word \<Rightarrow> bool" where
  "is_ascii_letter c = ((0x41 \<le> c \<and> c \<le> 0x5A) \<or> (0x61 \<le> c \<and> c \<le> 0x7A))"

definition sanitizeMetadataPath :: "jsstring \<Rightarrow> bool \<Rightarrow> error + jsstring" where
  "sanitizeMetadataPath metadataPath isDirectory =
     (if metadataPath = [] then Inl EmptyMetadataPath
      else
        let metadataPath1 = map (\<lambda>c. if c = 0x5C then 0x2F else c) metadataPath in
        if (case metadataPath1 of c # d # _ \<Rightarrow> is_ascii_letter c \<and> d = 0x3A | _ \<Rightarrow> False)
           \<or> (case metadataPath1 of c # _ \<Rightarrow> c = 0x2F | _ \<Rightarrow> False)
        then Inl AbsolutePath
        else if [0x2E, 0x2E] \<in> set (split_on 0x2F metadataPath1) then Inl InvalidRelativePath
        else
          let looksLikeDirectory = (last metadataPath1 = 0x2F) in
          if isDirectory
          then Inr (if \<not> looksLikeDirectory then metadataPath1 @ [0x2F] else metadataPath1)
          else if looksLikeDirectory then Inl FilePathEndsWithSlash
          else Inr metadataPath1)"

record CreateEntryOptions =
  ce_fileName :: jsstring
  ce_comment :: "Buffer + jsstring"
  ce_compress :: bool
  ce_compressedSize :: "int option"
  ce_crc32 :: "int option"
  ce_forceZip64Format :: bool
  ce_mode :: int
  ce_mtime :: "Date option"
  ce_uncompressedSize :: "int option"

text \<open>\<open>createEntry\<close>; \<open>now\<close> is the value of \<open>new Date()\<close>.\<close>

definition createEntry :: "Date \<Rightarrow> CreateEntryOptions \<Rightarrow> error + Entry" where
  "createEntry now options =
     (let fileName' = Buffer_from_string (ce_fileName options) in
      if length fileName' > 0xffff then Inl (FileNameTooLong (int (length fileName')))
      else if ce_mode options AND 0xffff \<noteq> ce_mode options then Inl (InvalidMode (ce_mode options))
      else
        let comment' = Buffer_from (ce_comment options) in
        if length comment' > 0xffff then Inl FileCommentTooLarge
        else
          let dosDateTime = dateToDosDateTime
                (case ce_mtime options of None \<Rightarrow> now | Some m \<Rightarrow> m) in
          Inr \<lparr>
            fileName = fileName',
            lastModFileTime = dos_time dosDateTime,
            lastModFileDate = dos_date dosDateTime,
            externalFileAttributes = take_bit 32 (push_bit 16 (ce_mode options)),
            crc32 = ce_crc32 options,
            uncompressedSize = ce_uncompressedSize options,
            compressedSize = ce_compressedSize options,
            compressionMethod = (if ce_compress options then cm_deflate else cm_none),
            crcAndFileSizeKnown = (ce_crc32 options \<noteq> None
              \<and> ce_uncompressedSize options \<noteq> None
              \<and> ce_compressedSize options \<noteq> None),
            forceZip64Format = ce_forceZip64Format options,
            comment = comment',
            relativeOffsetOfLocalHeader = None \<rparr>)"

subsection \<open>The writer's state\<close>

text \<open>
  The writer is a \<open>Readable\<close> with three fields of its own. \<open>queue\<close> is a promise or
  \<open>undefined\<close>; each operation chains its work onto it. The model runs the operations
  one after the other, each one's queued work as far as it goes before the next is
  called, so the promise is resolved, or rejected with the error of the operation that
  failed, or \<open>Pending\<close>: the work chained onto it waits for something that never
  comes, and the promise never settles. \<open>pushed\<close> lists the chunks handed to
  \<open>self.push\<close>, in order; \<open>ended\<close> records \<open>push(null)\<close>; \<open>emitted_errors\<close> and
  \<open>destroyed\<close> record \<open>emit('error', e)\<close> and \<open>destroy()\<close>.
\<close>

datatype promise_state = Resolved | Rejected error | Pending

record Zip =
  queue :: "promise_state option"
  outputStreamCursor :: int
  entries :: "Entry list"
  offsetOfStartOfCentralDirectory :: "int option"
  pushed :: "Buffer list"
  ended :: bool
  emitted_errors :: "error list"
  destroyed :: bool

definition new_Zip :: "int \<Rightarrow> Zip" where
  "new_Zip cursor' = \<lparr>
     queue = Some Resolved,
     outputStreamCursor = cursor',
     entries = [],
     offsetOfStartOfCentralDirectory = None,
     pushed = [],
     ended = False,
     emitted_errors = [],
     destroyed = False \<rparr>"

text \<open>
  What a call gives its caller: an exception thrown by the call itself, or a promise,
  which is rejected, or resolved, or never settles (\<open>Pends\<close>).
\<close>

datatype 'a outcome = Throws error | Rejects error | Resolves 'a | Pends

definition fail :: "Zip \<Rightarrow> error \<Rightarrow> Zip" where
  \<comment> \<open>the rejected promise becomes the queue, and its \<open>catch\<close> handler runs\<close>
  "fail self e = self\<lparr> queue := Some (Rejected e),
     emitted_errors := emitted_errors self @ [e], destroyed := True \<rparr>"

definition writeBuffer :: "Zip \<Rightarrow> Buffer \<Rightarrow> Zip" where
  "writeBuffer self buffer = self\<lparr>
     pushed := pushed self @ [buffer],
     outputStreamCursor := outputStreamCursor self + int (length buffer) \<rparr>"

definition total_length :: "Buffer list \<Rightarrow> int" where
  "total_length cs = (\<Sum>c\<leftarrow>cs. int (length c))"

text \<open>
  The functions that write an entry's data are async. Each returns the writer it left
  behind and how its promise went: \<open>Some (Inl e)\<close> rejected with \<open>e\<close>, \<open>Some (Inr x)\<close>
  resolved with \<open>x\<close>, \<open>None\<close> never settled. A pipeline whose source stops without
  end or error never settles.
\<close>

definition writeRawStream :: "Zip \<Rightarrow> Readable \<Rightarrow> Zip \<times> (error + unit) option" where
  "writeRawStream self readStream =
     (let self1 = self\<lparr> pushed := pushed self @ chunks readStream \<rparr> in
      case failure readStream of
        Some e \<Rightarrow> (self1, Some (Inl e))
      | None \<Rightarrow>
          (case uncaught readStream of
             Some e \<Rightarrow> (self1, None)
           | None \<Rightarrow>
               (self1\<lparr> outputStreamCursor :=
                  outputStreamCursor self1 + total_length (chunks readStream) \<rparr>,
                Some (Inr ()))))"

text \<open>
  \<open>writeEntryStream\<close>. Only the deflate branch has a stage that calls \<open>self.push\<close>; in
  the other branch the pipeline ends in the generator that counts and yields the
  chunks, and nothing is pushed.

  Nothing reads what that generator yields either. \<open>pipeline\<close> writes the chunks of a
  generator that stands last into an object-mode \<open>PassThrough\<close> of its own, whose
  buffers take \<open>objectHighWaterMark\<close> chunks each. When that many chunks lie unread
  on its readable side, the write of the last of them is never acknowledged, so the
  \<open>PassThrough\<close> never finishes and the promise of \<open>pipeline\<close> never resolves.
  The following writes queue up on the writable side, and the generator is asked for
  chunks until that buffer is full as well: it reads at most \<open>stored_pull_limit\<close>
  chunks from the stream. An error that the stream gives before that many chunks is
  met by the generator and rejects the pipeline. A later error lies beyond what is
  read; whether the stream comes to it all the same, by what it reads ahead on its
  own, is the stream's affair and is asked of the platform (\<open>fails_unread\<close>).
  \<open>stored_pipeline\<close> tells how the pipeline of the stored branch goes.
\<close>

definition objectHighWaterMark :: nat where
  \<comment> \<open>Node's default \<open>highWaterMark\<close> of a stream in object mode\<close>
  "objectHighWaterMark = 16"

definition stored_pull_limit :: nat where
  "stored_pull_limit = 2 * objectHighWaterMark - 1"

definition stored_pipeline :: "platform \<Rightarrow> Readable \<Rightarrow> (error + unit) option" where
  "stored_pipeline p readStream =
     (case failure readStream of
        Some e \<Rightarrow>
          if length (chunks readStream) < stored_pull_limit \<or> fails_unread p readStream
          then Some (Inl e) else None
      | None \<Rightarrow>
          if uncaught readStream = None \<and> length (chunks readStream) < objectHighWaterMark
          then Some (Inr ()) else None)"

definition deflate_pipeline :: "Readable \<Rightarrow> (error + unit) option" where
  "deflate_pipeline readStream =
     (case failure readStream of
        Some e \<Rightarrow> Some (Inl e)
      | None \<Rightarrow> if uncaught readStream = None then Some (Inr ()) else None)"

definition writeEntryStream ::
  "platform \<Rightarrow> Zip \<Rightarrow> Entry \<Rightarrow> Readable \<Rightarrow> Zip \<times> (error + Entry) option" where
  "writeEntryStream p self entry readStream =
     (let crc = fold (zlib_crc32 p) (chunks readStream) 0;
          uncompressedSize' = total_length (chunks readStream);
          deflate = (compressionMethod entry = cm_deflate);
          body = (if deflate
                    then (if failure readStream = None \<and> uncaught readStream = None
                          then createDeflateRaw p (chunks readStream)
                          else deflated_before_error p (chunks readStream))
                    else []);
          self1 = self\<lparr> pushed := pushed self @ body \<rparr>;
          compressedSize' = (if deflate then total_length body else uncompressedSize')
      in case (if deflate then deflate_pipeline readStream else stored_pipeline p readStream) of
           None \<Rightarrow> (self1, None)
         | Some (Inl e) \<Rightarrow> (self1, Some (Inl e))
         | Some (Inr _) \<Rightarrow>
             (case (case crc32 entry of
                      None \<Rightarrow> Inr (entry\<lparr> crc32 := Some crc \<rparr>)
                    | Some c \<Rightarrow> if c \<noteq> crc then Inl StreamUnexpectedChecksum else Inr entry) of
                Inl e \<Rightarrow> (self1, Some (Inl e))
              | Inr entry1 \<Rightarrow>
                  (case (case uncompressedSize entry1 of
                           None \<Rightarrow> Inr (entry1\<lparr> uncompressedSize := Some uncompressedSize' \<rparr>)
                         | Some u \<Rightarrow> if u \<noteq> uncompressedSize'
                                     then Inl StreamUnexpectedNumberOfBytes else Inr entry1) of
                     Inl e \<Rightarrow> (self1, Some (Inl e))
                   | Inr entry2 \<Rightarrow>
                       (self1\<lparr> outputStreamCursor := outputStreamCursor self1 + compressedSize' \<rparr>,
                        Some (Inr entry2)))))"

subsection \<open>The entry-write protocol: the function \<open>addEntry\<close>\<close>

type_synonym entry_writer = "Zip \<Rightarrow> Entry \<Rightarrow> Zip \<times> (error + Entry) option"

text \<open>
  \<open>addEntry_queued\<close> is the callback that \<open>addEntry\<close> chains onto the queue. Its
  \<open>callback\<close> argument is what the caller's callback returned or threw. A \<open>write\<close>
  function returns the writer it left behind and how its promise went; when that
  promise never settles, \<open>await write()\<close> never returns and neither does the callback.
\<close>

definition addEntry_queued ::
  "Zip \<Rightarrow> error + Entry \<times> entry_writer \<Rightarrow> Zip \<times> (error + Entry) option" where
  "addEntry_queued self callback =
     (case callback of
        Inl e \<Rightarrow> (self, Some (Inl e))
      | Inr (entry, write) \<Rightarrow>
          let entry1 = entry\<lparr> relativeOffsetOfLocalHeader := Some (outputStreamCursor self) \<rparr> in
          (case getLocalFileHeader entry1 of
             Inl e \<Rightarrow> (self, Some (Inl e))
           | Inr header \<Rightarrow>
               let self1 = writeBuffer self header;
                   cursor' = outputStreamCursor self1 in
               (case write self1 entry1 of
                  (self2, None) \<Rightarrow> (self2, None)
                | (self2, Some (Inl e)) \<Rightarrow> (self2, Some (Inl e))
                | (self2, Some (Inr entry2)) \<Rightarrow>
                    let compressedSize' = outputStreamCursor self2 - cursor' in
                    (case (case compressedSize entry2 of
                             None \<Rightarrow> Inr (entry2\<lparr> compressedSize := Some compressedSize' \<rparr>)
                           | Some c \<Rightarrow> if compressedSize' \<noteq> c
                                       then Inl UnexpectedCompressedSize else Inr entry2) of
                       Inl e \<Rightarrow> (self2, Some (Inl e))
                     | Inr entry3 \<Rightarrow>
                         (case (if \<not> crcAndFileSizeKnown entry3
                                then (case serializeDataDescriptor (crc32 entry3)
                                             (compressedSize entry3) (uncompressedSize entry3) of
                                        Inl e \<Rightarrow> Inl e
                                      | Inr descriptor \<Rightarrow> Inr (writeBuffer self2 descriptor))
                                else Inr self2) of
                            Inl e \<Rightarrow> (self2, Some (Inl e))
                          | Inr self3 \<Rightarrow>
                              (self3\<lparr> entries := entries self3 @ [entry3] \<rparr>,
                               Some (Inr entry3)))))))"

text \<open>
  \<open>addEntry\<close> is an async function: its \<open>throw\<close> for a writer without a queue rejects
  the promise it returns. Work chained onto a promise that never settles is never
  run, and the promise that stands for it never settles.
\<close>

definition addEntry :: "Zip \<Rightarrow> error + Entry \<times> entry_writer \<Rightarrow> Zip \<times> Entry outcome" where
  "addEntry self callback =
     (case queue self of
        None \<Rightarrow> (self, Rejects ZipFinalized)
      | Some (Rejected e) \<Rightarrow> (fail self e, Rejects e)
      | Some Pending \<Rightarrow> (self, Pends)
      | Some Resolved \<Rightarrow>
          (case addEntry_queued self callback of
             (self', None) \<Rightarrow> (self'\<lparr> queue := Some Pending \<rparr>, Pends)
           | (self', Some (Inl e)) \<Rightarrow> (fail self' e, Rejects e)
           | (self', Some (Inr entry)) \<Rightarrow> (self', Resolves entry)))"

subsection \<open>The methods of \<open>Zip\<close>\<close>

text \<open>
  The options object of the \<open>add\<close> methods; \<open>None\<close> is a property left out, for which
  each method has its own default.
\<close>

record AddOptions =
  ao_fileName :: "(Buffer + jsstring) option"
  ao_comment :: "(Buffer + jsstring) option"
  ao_compress :: "bool option"
  ao_compressedSize :: "int option"
  ao_crc32 :: "int option"
  ao_forceZip64Format :: "bool option"
  ao_mode :: "int option"
  ao_mtime :: "Date option"
  ao_uncompressedSize :: "int option"

definition no_options :: AddOptions where
  "no_options = \<lparr> ao_fileName = None, ao_comment = None, ao_compress = None,
     ao_compressedSize = None, ao_crc32 = None, ao_forceZip64Format = None, ao_mode = None,
     ao_mtime = None, ao_uncompressedSize = None \<rparr>"

definition default :: "'a \<Rightarrow> 'a option \<Rightarrow> 'a" where
  "default d v = (case v of None \<Rightarrow> d | Some x \<Rightarrow> x)"

definition EMPTY_BUFFER :: "Buffer + jsstring" where
  "EMPTY_BUFFER = Inl []"

definition is_utf8 :: "UnzipEntry \<Rightarrow> bool" where
  "is_utf8 entry =
     (cd_generalPurposeBitFlag (centralDirectoryFileHeader entry) AND gp_utf8 \<noteq> 0)"

definition reclaim :: "UnzipEntry \<Rightarrow> Buffer + jsstring \<Rightarrow> Buffer" where
  \<comment> \<open>the bytes \<open>Zip.addEntry\<close> takes for a name or comment of the source entry\<close>
  "reclaim entry v =
     (case v of
        Inl buffer \<Rightarrow> if is_utf8 entry then buffer else Buffer_from_string (decodeCp437 buffer 0)
      | Inr string \<Rightarrow> Buffer_from_string string)"

text \<open>
  \<open>pendingEntry\<close> is the entry that \<open>Zip.addEntry\<close> builds before it looks at the
  queue; each of its three checks throws from the call itself.
\<close>

definition pendingEntry :: "UnzipEntry \<Rightarrow> bool \<Rightarrow> AddOptions \<Rightarrow> error + Entry" where
  "pendingEntry entry withoutStream options =
     bind
       (case ao_fileName options of
          Some f \<Rightarrow> let b = Buffer_from f in
                    if length b > 0xffff then Inl (FileNameTooLong (int (length b))) else Inr b
        | None \<Rightarrow> Inr (reclaim entry (ue_fileName entry)))
       (\<lambda>fileName'.
     bind
       (case ao_comment options of
          Some c \<Rightarrow> let b = Buffer_from c in
                    if length b > 0xffff then Inl FileCommentTooLarge else Inr b
        | None \<Rightarrow> Inr (reclaim entry (ue_comment entry)))
       (\<lambda>comment'.
     bind
       (case ao_mode options of
          Some mode \<Rightarrow> if mode AND 0xffff \<noteq> mode then Inl (InvalidMode mode)
                       else Inr (take_bit 32 (push_bit 16 mode))
        | None \<Rightarrow> Inr (cd_externalFileAttributes (centralDirectoryFileHeader entry)))
       (\<lambda>externalFileAttributes'.
       let dosDateTime = dateToDosDateTime (default (ue_modificationDate entry) (ao_mtime options)) in
       Inr \<lparr>
         fileName = fileName',
         lastModFileTime = dos_time dosDateTime,
         lastModFileDate = dos_date dosDateTime,
         externalFileAttributes = externalFileAttributes',
         crc32 = Some (cd_crc32 (centralDirectoryFileHeader entry)),
         uncompressedSize = Some (ue_uncompressedSize entry),
         compressedSize = Some (ue_compressedSize entry),
         compressionMethod = cd_compressionMethod (centralDirectoryFileHeader entry),
         crcAndFileSizeKnown = True,
         forceZip64Format = default False (ao_forceZip64Format options),
         comment = comment',
         relativeOffsetOfLocalHeader =
           (if withoutStream then Some (ue_relativeOffsetOfLocalHeader entry) else None) \<rparr>)))"

text \<open>
  \<open>Zip.addEntry(entry, createReadStream, options)\<close>. \<open>createReadStream\<close> is \<open>None\<close>
  when the argument is left out, and otherwise what the caller's function gives for
  \<open>{ decompress: false }\<close>: a stream, or the error it rejects with.
\<close>

definition raw_writer :: "Readable \<Rightarrow> entry_writer" where
  "raw_writer stream self entry =
     (case writeRawStream self stream of
        (self', None) \<Rightarrow> (self', None)
      | (self', Some (Inl e)) \<Rightarrow> (self', Some (Inl e))
      | (self', Some (Inr _)) \<Rightarrow> (self', Some (Inr entry)))"

definition Zip_addEntry ::
  "Zip \<Rightarrow> UnzipEntry \<Rightarrow> (error + Readable) option \<Rightarrow> AddOptions \<Rightarrow> Zip \<times> Entry outcome" where
  "Zip_addEntry self entry createReadStream' options =
     (case pendingEntry entry (createReadStream' = None) options of
        Inl e \<Rightarrow> (self, Throws e)
      | Inr pending \<Rightarrow>
          (case createReadStream' of
             None \<Rightarrow>
               (case queue self of
                  None \<Rightarrow> (self, Throws ZipFinalized)
                | Some (Rejected e) \<Rightarrow> (self, Rejects e)
                | Some Pending \<Rightarrow> (self, Pends)
                | Some Resolved \<Rightarrow>
                    (self\<lparr> entries := entries self @ [pending] \<rparr>, Resolves pending))
           | Some created \<Rightarrow>
               addEntry self
                 (case created of
                    Inl e \<Rightarrow> Inl e
                  | Inr stream \<Rightarrow> Inr (pending, raw_writer stream))))"





text \<open>
  \<open>addReadStream\<close> creates its entry before it calls \<open>addEntry\<close>, so an error of
  \<open>createEntry\<close> is thrown by the call itself.
\<close>

definition readStream_entry :: "Date \<Rightarrow> jsstring \<Rightarrow> AddOptions \<Rightarrow> error + Entry" where
  "readStream_entry now name options =
     createEntry now \<lparr>
       ce_fileName = name,
       ce_comment = default EMPTY_BUFFER (ao_comment options),
       ce_compress = default True (ao_compress options),
       ce_compressedSize = ao_compressedSize options,
       ce_crc32 = ao_crc32 options,
       ce_forceZip64Format = default False (ao_forceZip64Format options),
       ce_mode = default 33204 (ao_mode options), \<comment> \<open>\<open>0o100664\<close>\<close>
       ce_mtime = ao_mtime options,
       ce_uncompressedSize = ao_uncompressedSize options \<rparr>"

definition addReadStream ::
  "platform \<Rightarrow> Date \<Rightarrow> Zip \<Rightarrow> Readable \<Rightarrow> jsstring \<Rightarrow> AddOptions \<Rightarrow> Zip \<times> Entry outcome" where
  "addReadStream p now self readStream fileName' options =
     (case sanitizeMetadataPath fileName' False of
        Inl e \<Rightarrow> (self, Throws e)
      | Inr name \<Rightarrow>
          (case readStream_entry now name options of
             Inl e \<Rightarrow> (self, Throws e)
           | Inr entry \<Rightarrow>
               addEntry self
                 (Inr (entry, \<lambda>self' entry'. writeEntryStream p self' entry' readStream))))"







text \<open>
  \<open>removeEntry(entry)\<close> looks the entry up with \<open>indexOf\<close>, which compares object
  identity; the model takes the index that \<open>indexOf\<close> returns, \<open>-1\<close> when the object is
  not in the list.
\<close>

definition removeEntry :: "Zip \<Rightarrow> int \<Rightarrow> Zip" where
  "removeEntry self entryIndex =
     (if entryIndex \<noteq> -1
      then self\<lparr> entries := take (nat entryIndex) (entries self)
                   @ drop (nat entryIndex + 1) (entries self) \<rparr>
      else self)"


section \<open>Example inputs\<close>

text \<open>
  Concrete inputs at which the theorems below are evaluated. \<open>stub_platform\<close> stands
  in for zlib there: its checksum adds up lengths, its deflate prefixes a byte, its
  deflate stream appends a two-byte chunk, its inflate stream passes the chunks on,
  and its streams come to no error that is not read. The theorems themselves hold for
  every platform.
\<close>

definition stub_platform :: platform where
  "stub_platform = \<lparr>
     zlib_crc32 = (\<lambda>buffer crc. crc + int (length buffer)),
     zlib_deflateRaw = (\<lambda>buffer. Inr (0 # buffer)),
     createDeflateRaw = (\<lambda>cs. cs @ [[3, 0]]),
     deflated_before_error = (\<lambda>cs. []),
     createInflateRaw = (\<lambda>cs. \<lparr> chunks = cs, failure = None, uncaught = None \<rparr>),
     fails_unread = (\<lambda>stream. False) \<rparr>"

definition a_txt :: jsstring where
  "a_txt = [0x61, 0x2E, 0x74, 0x78, 0x74]"

definition three_bytes :: Readable where
  "three_bytes = \<lparr> chunks = [[1, 2, 3]], failure = None, uncaught = None \<rparr>"

definition sixteen_chunks :: Readable where
  \<comment> \<open>a stream that delivers sixteen chunks of one byte and ends\<close>
  "sixteen_chunks = \<lparr> chunks = replicate 16 [1], failure = None, uncaught = None \<rparr>"

definition epoch_options :: AddOptions where
  \<comment> \<open>\<open>{ mode: 0, mtime: new Date(0) }\<close>, as in the repository's tests\<close>
  "epoch_options = no_options\<lparr> ao_mode := Some 0, ao_mtime := Some 0 \<rparr>"

definition streamed_entry :: Entry where
  \<comment> \<open>what \<open>addReadStream(stream, 'a.txt', { mode: 0, mtime: new Date(0) })\<close> creates\<close>
  "streamed_entry = \<lparr> fileName = [0x61, 0x2E, 0x74, 0x78, 0x74], lastModFileTime = 0,
     lastModFileDate = 60449, externalFileAttributes = 0, crc32 = None,
     uncompressedSize = None, compressedSize = None, compressionMethod = 8,
     crcAndFileSizeKnown = False, forceZip64Format = False, comment = [],
     relativeOffsetOfLocalHeader = None \<rparr>"

definition streamed_header :: Buffer where
  "streamed_header = [0x50, 0x4B, 0x03, 0x04, 45, 0, 0x08, 0x08, 8, 0, 0, 0, 0x21, 0xEC,
     0, 0, 0, 0, 0xFF, 0xFF, 0xFF, 0xFF, 0xFF, 0xFF, 0xFF, 0xFF, 5, 0, 20, 0,
     0x61, 0x2E, 0x74, 0x78, 0x74,
     1, 0, 16, 0, 0, 0, 0, 0, 0, 0, 0, 0, 0, 0, 0, 0, 0, 0, 0, 0]"

definition streamed_descriptor :: Buffer where
  "streamed_descriptor = [0x50, 0x4B, 0x07, 0x08, 3, 0, 0, 0, 5, 0, 0, 0, 0, 0, 0, 0,
     3, 0, 0, 0, 0, 0, 0, 0]"

definition own_zip64_header :: CentralDirectoryFileHeader where
  \<comment> \<open>a header as \<open>getCentralDirectoryRecord\<close> writes it for an entry in ZIP64 form:
      three sentinels, disk number 0, a 24-byte ZIP64 payload\<close>
  "own_zip64_header = \<lparr>
     cd_versionMadeBy = 831, cd_versionNeededToExtract = 45, cd_generalPurposeBitFlag = 0x0800,
     cd_compressionMethod = 0, cd_fileLastModificationTime = 0,
     cd_fileLastModificationDate = 60449, cd_crc32 = 0,
     cd_compressedSize = 0xffffffff, cd_uncompressedSize = 0xffffffff,
     cd_fileNameLength = 5, cd_extraFieldsLength = 28, cd_commentLength = 0,
     cd_diskNumberStart = 0, cd_internalFileAttributes = 0, cd_externalFileAttributes = 0,
     cd_relativeOffsetOfLocalHeader = 0xffffffff,
     cd_fileName = [0x61, 0x2E, 0x74, 0x78, 0x74],
     cd_extraFields = [(0x0001,
        [3, 0, 0, 0, 0, 0, 0, 0,  3, 0, 0, 0, 0, 0, 0, 0,  0, 0, 0, 0, 0, 0, 0, 0])],
     cd_comment = [] \<rparr>"

definition disk_sentinel_header :: CentralDirectoryFileHeader where
  \<comment> \<open>only the disk number holds its sentinel; the ZIP64 payload is the 4-byte disk number 2\<close>
  "disk_sentinel_header = own_zip64_header\<lparr>
     cd_compressedSize := 3, cd_uncompressedSize := 3, cd_relativeOffsetOfLocalHeader := 0,
     cd_diskNumberStart := 0xffff, cd_extraFieldsLength := 8,
     cd_extraFields := [(0x0001, [2, 0, 0, 0])] \<rparr>"

definition many_entries :: EocdrParams where
  \<comment> \<open>the trailer of an archive of 65536 empty directories, each with a two-byte name\<close>
  "many_entries = \<lparr> p_entryCount = 65536, p_cursor = 5242880,
     p_offsetOfStartOfCentralDirectory = 2097152, p_comment = [],
     p_forceZip64Format = False \<rparr>"

definition stored_options :: AddOptions where
  \<comment> \<open>\<open>{ compress: false, mode: 0, mtime: new Date(0) }\<close>\<close>
  "stored_options = epoch_options\<lparr> ao_compress := Some False \<rparr>"

definition stored_entry :: Entry where
  "stored_entry = streamed_entry\<lparr> compressionMethod := 0 \<rparr>"

definition stored_header :: Buffer where
  "stored_header = [0x50, 0x4B, 0x03, 0x04, 45, 0, 0x08, 0x08, 0, 0, 0, 0, 0x21, 0xEC,
     0, 0, 0, 0, 0xFF, 0xFF, 0xFF, 0xFF, 0xFF, 0xFF, 0xFF, 0xFF, 5, 0, 20, 0,
     0x61, 0x2E, 0x74, 0x78, 0x74,
     1, 0, 16, 0, 0, 0, 0, 0, 0, 0, 0, 0, 0, 0, 0, 0, 0, 0, 0, 0]"

definition stored_descriptor :: Buffer where
  "stored_descriptor = [0x50, 0x4B, 0x07, 0x08, 3, 0, 0, 0, 3, 0, 0, 0, 0, 0, 0, 0,
     3, 0, 0, 0, 0, 0, 0, 0]"




definition empty_trailer :: Buffer where
  \<comment> \<open>the end of central directory record of an archive without entries, its two
      unwritten bytes zero\<close>
  "empty_trailer = [0x50, 0x4B, 0x05, 0x06, 0, 0, 0, 0, 0, 0, 0, 0, 0, 0, 0, 0, 0, 0, 0, 0, 0, 0]"

definition simple_entry :: UnzipEntry where
  \<comment> \<open>the entry \<open>test.txt\<close> of \<open>fixtures/simple.zip\<close>, as the repository's test expects it\<close>
  "simple_entry = \<lparr>
     centralDirectoryFileHeader = \<lparr>
       cd_versionMadeBy = 798, cd_versionNeededToExtract = 10, cd_generalPurposeBitFlag = 0,
       cd_compressionMethod = 0, cd_fileLastModificationTime = 43437,
       cd_fileLastModificationDate = 22811, cd_crc32 = 3187940748,
       cd_compressedSize = 21, cd_uncompressedSize = 21,
       cd_fileNameLength = 8, cd_extraFieldsLength = 24, cd_commentLength = 0,
       cd_diskNumberStart = 0, cd_internalFileAttributes = 1,
       cd_externalFileAttributes = 2175008768, cd_relativeOffsetOfLocalHeader = 0,
       cd_fileName = [0x74, 0x65, 0x73, 0x74, 0x2E, 0x74, 0x78, 0x74],
       cd_extraFields = [(21589, [3, 69, 23, 206, 102]),
                         (30837, [1, 4, 232, 3, 0, 0, 4, 232, 3, 0, 0])],
       cd_comment = [] \<rparr>,
     ue_fileName = Inr [0x74, 0x65, 0x73, 0x74, 0x2E, 0x74, 0x78, 0x74],
     ue_comment = Inr [],
     ue_modificationDate = 1724793206000,
     ue_compressedSize = 21,
     ue_uncompressedSize = 21,
     ue_relativeOffsetOfLocalHeader = 0,
     ue_diskNumberStart = 0,
     ue_encrypted = False,
     ue_compressed = Some False \<rparr>"

definition ambiguous_archive :: Buffer where
  \<comment> \<open>an empty archive whose 22-byte comment starts with the EOCDR signature and ends
      with the bytes 1, 0\<close>
  "ambiguous_archive =
     [0x50, 0x4B, 0x05, 0x06, 0, 0, 0, 0, 0, 0, 0, 0, 0, 0, 0, 0, 0, 0, 0, 0, 22, 0,
      0x50, 0x4B, 0x05, 0x06, 0, 0, 0, 0, 0, 0, 0, 0, 0, 0, 0, 0, 0, 0, 0, 0, 1, 0]"

definition stored_archive :: Buffer where
  \<comment> \<open>a local file header for the stored file \<open>a.txt\<close>, followed by its three bytes of data\<close>
  "stored_archive =
     [0x50, 0x4B, 0x03, 0x04, 20, 0, 0x00, 0x08, 0, 0, 0, 0, 0x21, 0xEC,
      3, 0, 0, 0, 3, 0, 0, 0, 3, 0, 0, 0, 5, 0, 0, 0,
      0x61, 0x2E, 0x74, 0x78, 0x74,
      1, 2, 3]"

definition stored_archive_header :: LocalFileHeader where
  "stored_archive_header = \<lparr>
     lf_versionNeededToExtract = 20, lf_generalPurposeBitFlag = 0x0800,
     lf_compressionMethod = 0, lf_fileLastModificationTime = 0,
     lf_fileLastModificationDate = 60449, lf_crc32 = 3, lf_compressedSize = 3,
     lf_uncompressedSize = 3, lf_fileNameLength = 5, lf_extraFieldsLength = 0,
     lf_fileName = [0x61, 0x2E, 0x74, 0x78, 0x74], lf_extraFields = [] \<rparr>"

definition stored_read_entry :: UnzipEntry where
  \<comment> \<open>the read-side entry of \<open>stored_archive\<close>; its CRC is the one of \<open>stub_platform\<close>\<close>
  "stored_read_entry = simple_entry\<lparr>
     centralDirectoryFileHeader := (centralDirectoryFileHeader simple_entry)\<lparr> cd_crc32 := 3 \<rparr>,
     ue_compressedSize := 3, ue_uncompressedSize := 3 \<rparr>"

definition short_read_entry :: UnzipEntry where
  \<comment> \<open>the same entry with an uncompressed size of 2 in the central directory\<close>
  "short_read_entry = stored_read_entry\<lparr> ue_uncompressedSize := 2 \<rparr>"

definition long_read_entry :: UnzipEntry where
  \<comment> \<open>the same entry with an uncompressed size of 4 in the central directory\<close>
  "long_read_entry = stored_read_entry\<lparr> ue_uncompressedSize := 4 \<rparr>"

definition no_read_options :: UnzipEntryOptions where
  "no_read_options = \<lparr> uo_start = None, uo_end = None, uo_decompress = None,
     uo_decrypt = None, uo_validateData = None \<rparr>"

section \<open>Facts about the serialisers\<close>

lemma concat_writes_Inr_iff:
  "concat_writes rs = Inr b \<longleftrightarrow> (\<exists>bs. rs = map Inr bs \<and> b = concat bs)"
proof (induction rs arbitrary: b rule: concat_writes.induct)
  case 1
  then show ?case by auto
next
  case (2 e rs)
  then show ?case by (auto simp: map_eq_Cons_conv)
next
  case (3 x rs)
  show ?case
  proof (cases "concat_writes rs")
    case (Inl e)
    with 3 have "\<not> (\<exists>bs. rs = map Inr bs)" by auto
    with Inl show ?thesis by (auto simp: Cons_eq_map_conv)
  next
    case (Inr c)
    with 3 obtain cs where "rs = map Inr cs" "c = concat cs" by auto
    with Inr show ?thesis by (auto simp: Cons_eq_map_conv)
  qed
qed

lemma length_le_bytes [simp]: "length (le_bytes n v) = n"
  by (induction n arbitrary: v) simp_all

lemma writeUInt16LE_Inr: "writeUInt16LE v = Inr b \<Longrightarrow> 0 \<le> v \<and> v \<le> 0xffff \<and> b = le_bytes 2 v"
  by (auto simp: writeUInt16LE_def split: if_splits)

lemma writeUInt32LE_Inr: "writeUInt32LE v = Inr b \<Longrightarrow> 0 \<le> v \<and> v \<le> 0xffffffff \<and> b = le_bytes 4 v"
  by (auto simp: writeUInt32LE_def split: if_splits)

lemma writeBigUInt64LE_Inr:
  "writeBigUInt64LE v = Inr b \<Longrightarrow> 0 \<le> v \<and> v \<le> 0xffffffffffffffff \<and> b = le_bytes 8 v"
  by (auto simp: writeBigUInt64LE_def split: if_splits)

lemma serializeLocalFileHeader_Inr:
  assumes "serializeLocalFileHeader obj = Inr h"
  shows "\<exists>ef. serializeExtraFields (l_extraFields obj) = Inr ef \<and>
     h = le_bytes 4 0x04034b50 @ le_bytes 2 (l_versionNeededToExtract obj)
       @ le_bytes 2 (l_generalPurposeBitFlag obj) @ le_bytes 2 (l_compressionMethod obj)
       @ le_bytes 2 (l_fileLastModificationTime obj) @ le_bytes 2 (l_fileLastModificationDate obj)
       @ le_bytes 4 (l_crc32 obj) @ le_bytes 4 (l_compressedSize obj)
       @ le_bytes 4 (l_uncompressedSize obj) @ le_bytes 2 (int (length (l_fileName obj)))
       @ le_bytes 2 (int (length ef)) @ l_fileName obj @ ef"
  using assms
  by (auto simp: serializeLocalFileHeader_def bind_def concat_writes_Inr_iff Cons_eq_map_conv
      dest!: writeUInt16LE_Inr writeUInt32LE_Inr split: sum.splits)

lemma le_bytes_2: "le_bytes 2 v = [word_of_int v, word_of_int (v div 256)]"
  by (simp add: numeral_2_eq_2)

lemma le_bytes_4: "le_bytes 4 v = [word_of_int v, word_of_int (v div 256),
    word_of_int (v div 256 div 256), word_of_int (v div 256 div 256 div 256)]"
  by (simp add: eval_nat_numeral)


lemma serializeDataDescriptor_Inr:
  assumes "serializeDataDescriptor c cs us = Inr d"
  shows "length d = 24 \<and> take 4 d = [0x50, 0x4b, 0x07, 0x08]"
  using assms
  by (auto simp: serializeDataDescriptor_def concat_writes_Inr_iff Cons_eq_map_conv le_bytes_4
      dest!: writeUInt32LE_Inr writeBigUInt64LE_Inr split: option.splits)

section \<open>The example inputs evaluated\<close>

lemma dos_epoch: "dateToDosDateTime 0 = \<lparr> dos_date = 60449, dos_time = 0 \<rparr>"
  by code_simp

lemma utf8_a_txt: "Buffer_from_string a_txt = [0x61, 0x2E, 0x74, 0x78, 0x74]"
  by (simp add: a_txt_def utf8_of_codepoint_def is_high_surrogate_def is_low_surrogate_def)

lemma createEntry_streamed:
  "createEntry 0 \<lparr> ce_fileName = a_txt, ce_comment = EMPTY_BUFFER, ce_compress = True,
     ce_compressedSize = None, ce_crc32 = None, ce_forceZip64Format = False, ce_mode = 0,
     ce_mtime = Some 0, ce_uncompressedSize = None \<rparr> = Inr streamed_entry"
  by (simp add: createEntry_def utf8_a_txt dos_epoch EMPTY_BUFFER_def Buffer_from_def
      streamed_entry_def cm_deflate_def)

lemma sanitize_a_txt: "sanitizeMetadataPath a_txt False = Inr a_txt"
  by (simp add: sanitizeMetadataPath_def a_txt_def is_ascii_letter_def)

lemma streamed_header_eval:
  "getLocalFileHeader (streamed_entry\<lparr> relativeOffsetOfLocalHeader := Some 0 \<rparr>) = Inr streamed_header"
  by code_simp

lemma streamed_descriptor_eval:
  "serializeDataDescriptor (Some 3) (Some 5) (Some 3) = Inr streamed_descriptor"
  by code_simp

lemma addReadStream_streamed:
  "addReadStream stub_platform 0 (new_Zip 0) three_bytes a_txt epoch_options =
     ((new_Zip 0)\<lparr> outputStreamCursor := 84,
        entries := [streamed_entry\<lparr> relativeOffsetOfLocalHeader := Some 0, crc32 := Some 3,
           uncompressedSize := Some 3, compressedSize := Some 5 \<rparr>],
        pushed := [streamed_header, [1, 2, 3], [3, 0], streamed_descriptor] \<rparr>,
      Resolves (streamed_entry\<lparr> relativeOffsetOfLocalHeader := Some 0, crc32 := Some 3,
           uncompressedSize := Some 3, compressedSize := Some 5 \<rparr>))"
proof -
  have len: "length streamed_header = 55" "length streamed_descriptor = 24"
    by (simp_all add: streamed_header_def streamed_descriptor_def)
  have k: "\<not> crcAndFileSizeKnown streamed_entry" "compressionMethod streamed_entry = 8"
    "crc32 streamed_entry = None" "uncompressedSize streamed_entry = None"
    "compressedSize streamed_entry = None"
    by (simp_all add: streamed_entry_def)
  show ?thesis
    by (simp add: addReadStream_def readStream_entry_def sanitize_a_txt epoch_options_def no_options_def default_def
        createEntry_streamed [unfolded EMPTY_BUFFER_def] EMPTY_BUFFER_def addEntry_def new_Zip_def addEntry_queued_def
        streamed_header_eval writeBuffer_def writeEntryStream_def deflate_pipeline_def
        three_bytes_def stub_platform_def total_length_def cm_deflate_def k len
        streamed_descriptor_eval)
qed


lemma stored_header_eval:
  "getLocalFileHeader (stored_entry\<lparr> relativeOffsetOfLocalHeader := Some 0 \<rparr>) = Inr stored_header"
  by code_simp

lemma stored_descriptor_eval:
  "serializeDataDescriptor (Some 3) (Some 3) (Some 3) = Inr stored_descriptor"
  by code_simp

lemma createEntry_stored:
  "createEntry 0 \<lparr> ce_fileName = a_txt, ce_comment = Inl [], ce_compress = False,
     ce_compressedSize = None, ce_crc32 = None, ce_forceZip64Format = False, ce_mode = 0,
     ce_mtime = Some 0, ce_uncompressedSize = None \<rparr> = Inr stored_entry"
  by (simp add: createEntry_def utf8_a_txt dos_epoch Buffer_from_def stored_entry_def
      streamed_entry_def cm_none_def)

lemma addReadStream_stored:
  "addReadStream stub_platform 0 (new_Zip 0) three_bytes a_txt stored_options =
     ((new_Zip 0)\<lparr> outputStreamCursor := 82,
        entries := [stored_entry\<lparr> relativeOffsetOfLocalHeader := Some 0, crc32 := Some 3,
           uncompressedSize := Some 3, compressedSize := Some 3 \<rparr>],
        pushed := [stored_header, stored_descriptor] \<rparr>,
      Resolves (stored_entry\<lparr> relativeOffsetOfLocalHeader := Some 0, crc32 := Some 3,
           uncompressedSize := Some 3, compressedSize := Some 3 \<rparr>))"
proof -
  have len: "length stored_header = 55" "length stored_descriptor = 24"
    by (simp_all add: stored_header_def stored_descriptor_def)
  have k: "\<not> crcAndFileSizeKnown stored_entry" "compressionMethod stored_entry = 0"
    "crc32 stored_entry = None" "uncompressedSize stored_entry = None"
    "compressedSize stored_entry = None"
    by (simp_all add: stored_entry_def streamed_entry_def)
  show ?thesis
    by (simp add: addReadStream_def readStream_entry_def sanitize_a_txt stored_options_def epoch_options_def
        no_options_def default_def createEntry_stored EMPTY_BUFFER_def addEntry_def new_Zip_def
        addEntry_queued_def stored_header_eval writeBuffer_def writeEntryStream_def
        stored_pipeline_def objectHighWaterMark_def
        three_bytes_def stub_platform_def total_length_def cm_deflate_def k len
        stored_descriptor_eval)
qed
section \<open>Entries written without known sizes\<close>

lemma getLocalFileHeader_unknown_Inr:
  assumes "\<not> crcAndFileSizeKnown entry" "getLocalFileHeader entry = Inr h"
  shows "h = [0x50, 0x4b, 0x03, 0x04] @ [45, 0] @ [8, 8] @ le_bytes 2 (compressionMethod entry)
       @ le_bytes 2 (lastModFileTime entry) @ le_bytes 2 (lastModFileDate entry)
       @ [0, 0, 0, 0] @ [0xff, 0xff, 0xff, 0xff] @ [0xff, 0xff, 0xff, 0xff]
       @ le_bytes 2 (int (length (fileName entry)))
       @ [20, 0] @ fileName entry @ ([1, 0, 16, 0] @ replicate 16 0)"
proof -
  let ?obj = "\<lparr>
            l_versionNeededToExtract = VERSION_NEEDED_TO_EXTRACT_ZIP64,
            l_generalPurposeBitFlag = gp_utf8 OR gp_unknownCrc32AndFileSizes,
            l_compressionMethod = compressionMethod entry,
            l_fileLastModificationTime = lastModFileTime entry,
            l_fileLastModificationDate = lastModFileDate entry,
            l_crc32 = 0,
            l_compressedSize = 0xffffffff,
            l_uncompressedSize = 0xffffffff,
            l_fileName = fileName entry,
            l_extraFields = [(0x0001, replicate 16 0)] \<rparr>"
  have "serializeLocalFileHeader ?obj = Inr h"
    using assms by (simp add: getLocalFileHeader_def bind_def)
  from serializeLocalFileHeader_Inr [OF this]
  obtain ef where ef: "serializeExtraFields [(0x0001, replicate 16 0)] = Inr ef"
    and h: "h = le_bytes 4 0x04034b50 @ le_bytes 2 VERSION_NEEDED_TO_EXTRACT_ZIP64
       @ le_bytes 2 (gp_utf8 OR gp_unknownCrc32AndFileSizes) @ le_bytes 2 (compressionMethod entry)
       @ le_bytes 2 (lastModFileTime entry) @ le_bytes 2 (lastModFileDate entry)
       @ le_bytes 4 0 @ le_bytes 4 0xffffffff
       @ le_bytes 4 0xffffffff @ le_bytes 2 (int (length (fileName entry)))
       @ le_bytes 2 (int (length ef)) @ fileName entry @ ef"
    by auto
  have "ef = [1, 0, 16, 0] @ replicate 16 0"
    using ef by (simp add: writeUInt16LE_def le_bytes_2)
  then show ?thesis
    unfolding h
    by (simp add: le_bytes_2 le_bytes_4 VERSION_NEEDED_TO_EXTRACT_ZIP64_def gp_utf8_def
        gp_unknownCrc32AndFileSizes_def)
qed

lemma local_header_unknown_fields:
  assumes "\<not> crcAndFileSizeKnown entry" "getLocalFileHeader entry = Inr h"
  shows "readUInt32LE h 14 = Inr 0" "readUInt32LE h 18 = Inr 0xffffffff"
    "readUInt32LE h 22 = Inr 0xffffffff" "readUInt16LE h 6 = Inr 0x0808"
    "readUInt16LE h 4 = Inr 45"
    "drop (length (fileName entry)) (drop 30 h) = [1, 0, 16, 0] @ replicate 16 0"
  unfolding getLocalFileHeader_unknown_Inr [OF assms]
  by (simp_all add: readUInt32LE_def readUInt16LE_def readUIntLE_def le_bytes_2)

lemma writeEntryStream_deflate_resolved:
  assumes "writeEntryStream p s e rs = (s2, Some (Inr e2))"
    and "compressionMethod e = cm_deflate"
  shows "crcAndFileSizeKnown e2 = crcAndFileSizeKnown e"
    and "pushed s2 = pushed s @ createDeflateRaw p (chunks rs)"
    and "outputStreamCursor s2
           = outputStreamCursor s + total_length (createDeflateRaw p (chunks rs))"
    and "crc32 e2 = Some (fold (zlib_crc32 p) (chunks rs) 0)"
    and "uncompressedSize e2 = Some (total_length (chunks rs))"
    and "compressedSize e2 = compressedSize e"
  using assms
  by (auto simp: writeEntryStream_def deflate_pipeline_def Let_def
      split: option.splits if_splits sum.splits)

lemma addEntry_unknown_descriptor:
  assumes "addEntry self (Inr (entry, \<lambda>s e. writeEntryStream p s e readStream))
      = (self', Resolves entry')"
    and "\<not> crcAndFileSizeKnown entry"
    and "compressionMethod entry = cm_deflate"
  shows "\<exists>header descriptor.
     getLocalFileHeader (entry\<lparr> relativeOffsetOfLocalHeader := Some (outputStreamCursor self) \<rparr>)
       = Inr header
     \<and> serializeDataDescriptor (Some (fold (zlib_crc32 p) (chunks readStream) 0))
           (Some (total_length (createDeflateRaw p (chunks readStream))))
           (Some (total_length (chunks readStream))) = Inr descriptor
     \<and> length descriptor = 24 \<and> take 4 descriptor = [0x50, 0x4b, 0x07, 0x08]
     \<and> pushed self'
         = pushed self @ [header] @ createDeflateRaw p (chunks readStream) @ [descriptor]"
proof -
  let ?e1 = "entry\<lparr> relativeOffsetOfLocalHeader := Some (outputStreamCursor self) \<rparr>"
  let ?body = "createDeflateRaw p (chunks readStream)"
  from assms(1) have q: "addEntry_queued self (Inr (entry, \<lambda>s e. writeEntryStream p s e readStream))
      = (self', Some (Inr entry'))"
    by (auto simp: addEntry_def fail_def
        split: option.splits promise_state.splits prod.splits sum.splits)
  then obtain header where header: "getLocalFileHeader ?e1 = Inr header"
    by (auto simp: addEntry_queued_def Let_def split: sum.splits)
  obtain s2 r where w: "writeEntryStream p (writeBuffer self header) ?e1 readStream = (s2, r)"
    by (cases "writeEntryStream p (writeBuffer self header) ?e1 readStream")
  with q header obtain e2 where r: "r = Some (Inr e2)"
    by (auto simp: addEntry_queued_def Let_def split: sum.splits option.splits)
  have d: "compressionMethod ?e1 = cm_deflate" using assms(3) by simp
  note f = writeEntryStream_deflate_resolved [OF w [unfolded r] d]
  have e2: "\<not> crcAndFileSizeKnown e2" using f(1) assms(2) by simp
  have body: "pushed s2 = pushed self @ [header] @ ?body"
    using f(2) by (simp add: writeBuffer_def)
  have cur: "outputStreamCursor s2 - outputStreamCursor (writeBuffer self header)
      = total_length ?body"
    using f(3) by simp
  from q header w r e2 cur f(4,5) obtain descriptor where
    dd: "serializeDataDescriptor (Some (fold (zlib_crc32 p) (chunks readStream) 0))
           (Some (total_length ?body)) (Some (total_length (chunks readStream))) = Inr descriptor"
    and s': "pushed self' = pushed s2 @ [descriptor]"
    by (auto simp: addEntry_queued_def Let_def writeBuffer_def
        split: sum.splits option.splits if_splits)
  show ?thesis
    using header body dd s' serializeDataDescriptor_Inr [OF dd] by auto
qed

text \<open>
  Claim C2, as the code has it. For every entry whose \<open>crcAndFileSizeKnown\<close> is false
  when its local file header is written: the header's CRC field is zero, its two 32-bit
  size fields both hold \<open>0xFFFFFFFF\<close> (not zero), its general-purpose flags are
  \<open>0x0808\<close> (UTF-8 and the data-descriptor bit \<open>0x0008\<close>), its version needed is 45, and
  its only extra field is the ZIP64 one (id 1) with sixteen zero bytes. And when
  \<open>addEntry\<close> completes for such an entry written with deflate, the chunks it pushed
  are the header, then the entry's file data (what the deflate stream made of the
  chunks read), then one 24-byte data descriptor that starts with the signature
  \<open>0x08074B50\<close> and serialises the CRC of the chunks read, the length of the file data
  and the length of the chunks read.
\<close>

theorem unknown_sizes_header_and_descriptor:
  assumes "\<not> crcAndFileSizeKnown entry"
  shows "(\<forall>h. getLocalFileHeader entry = Inr h \<longrightarrow>
            readUInt32LE h 14 = Inr 0
          \<and> readUInt32LE h 18 = Inr 0xffffffff
          \<and> readUInt32LE h 22 = Inr 0xffffffff
          \<and> readUInt16LE h 6 = Inr 0x0808
          \<and> readUInt16LE h 4 = Inr 45
          \<and> drop (length (fileName entry)) (drop 30 h) = [1, 0, 16, 0] @ replicate 16 0)
       \<and> (\<forall>self p readStream self' entry'.
            compressionMethod entry = cm_deflate
            \<and> addEntry self (Inr (entry, \<lambda>s e. writeEntryStream p s e readStream))
              = (self', Resolves entry') \<longrightarrow>
            (\<exists>header descriptor.
               getLocalFileHeader
                   (entry\<lparr> relativeOffsetOfLocalHeader := Some (outputStreamCursor self) \<rparr>)
                 = Inr header
             \<and> serializeDataDescriptor (Some (fold (zlib_crc32 p) (chunks readStream) 0))
                   (Some (total_length (createDeflateRaw p (chunks readStream))))
                   (Some (total_length (chunks readStream))) = Inr descriptor
             \<and> length descriptor = 24 \<and> take 4 descriptor = [0x50, 0x4b, 0x07, 0x08]
             \<and> pushed self'
                 = pushed self @ [header] @ createDeflateRaw p (chunks readStream)
                     @ [descriptor]))"
proof (rule conjI)
  show "\<forall>h. getLocalFileHeader entry = Inr h \<longrightarrow>
            readUInt32LE h 14 = Inr 0
          \<and> readUInt32LE h 18 = Inr 0xffffffff
          \<and> readUInt32LE h 22 = Inr 0xffffffff
          \<and> readUInt16LE h 6 = Inr 0x0808
          \<and> readUInt16LE h 4 = Inr 45
          \<and> drop (length (fileName entry)) (drop 30 h) = [1, 0, 16, 0] @ replicate 16 0"
    using local_header_unknown_fields [OF assms] by simp
next
  show "\<forall>self p readStream self' entry'.
            compressionMethod entry = cm_deflate
            \<and> addEntry self (Inr (entry, \<lambda>s e. writeEntryStream p s e readStream))
              = (self', Resolves entry') \<longrightarrow>
            (\<exists>header descriptor.
               getLocalFileHeader
                   (entry\<lparr> relativeOffsetOfLocalHeader := Some (outputStreamCursor self) \<rparr>)
                 = Inr header
             \<and> serializeDataDescriptor (Some (fold (zlib_crc32 p) (chunks readStream) 0))
                   (Some (total_length (createDeflateRaw p (chunks readStream))))
                   (Some (total_length (chunks readStream))) = Inr descriptor
             \<and> length descriptor = 24 \<and> take 4 descriptor = [0x50, 0x4b, 0x07, 0x08]
             \<and> pushed self'
                 = pushed self @ [header] @ createDeflateRaw p (chunks readStream)
                     @ [descriptor])"
    using addEntry_unknown_descriptor [OF _ assms] by blast
qed

lemma addEntry_streamed:
  "addEntry (new_Zip 0) (Inr (streamed_entry, \<lambda>s e. writeEntryStream stub_platform s e three_bytes))
     = ((new_Zip 0)\<lparr> outputStreamCursor := 84,
        entries := [streamed_entry\<lparr> relativeOffsetOfLocalHeader := Some 0, crc32 := Some 3,
           uncompressedSize := Some 3, compressedSize := Some 5 \<rparr>],
        pushed := [streamed_header, [1, 2, 3], [3, 0], streamed_descriptor] \<rparr>,
      Resolves (streamed_entry\<lparr> relativeOffsetOfLocalHeader := Some 0, crc32 := Some 3,
           uncompressedSize := Some 3, compressedSize := Some 5 \<rparr>))"
  using addReadStream_streamed
  by (simp add: addReadStream_def readStream_entry_def sanitize_a_txt epoch_options_def no_options_def default_def
      createEntry_streamed [unfolded EMPTY_BUFFER_def] EMPTY_BUFFER_def)

theorem unknown_sizes_header_and_descriptor_witness:
  "\<not> crcAndFileSizeKnown streamed_entry
   \<and> compressionMethod streamed_entry = cm_deflate
   \<and> getLocalFileHeader (streamed_entry\<lparr> relativeOffsetOfLocalHeader := Some 0 \<rparr>) = Inr streamed_header
   \<and> readUInt32LE streamed_header 14 = Inr 0
   \<and> readUInt32LE streamed_header 18 = Inr 0xffffffff
   \<and> readUInt32LE streamed_header 22 = Inr 0xffffffff
   \<and> readUInt16LE streamed_header 6 = Inr 0x0808
   \<and> drop 35 streamed_header = [1, 0, 16, 0] @ replicate 16 0
   \<and> createDeflateRaw stub_platform (chunks three_bytes) = [[1, 2, 3], [3, 0]]
   \<and> (\<exists>self' entry'.
        addEntry (new_Zip 0)
            (Inr (streamed_entry, \<lambda>s e. writeEntryStream stub_platform s e three_bytes))
          = (self', Resolves entry')
        \<and> pushed self' = [streamed_header, [1, 2, 3], [3, 0], streamed_descriptor]
        \<and> (\<exists>header descriptor.
              pushed self' = pushed (new_Zip 0) @ [header]
                @ createDeflateRaw stub_platform (chunks three_bytes) @ [descriptor]
            \<and> take 4 descriptor = [0x50, 0x4b, 0x07, 0x08]))"
proof -
  have k: "\<not> crcAndFileSizeKnown (streamed_entry\<lparr> relativeOffsetOfLocalHeader := Some 0 \<rparr>)"
    and k0: "\<not> crcAndFileSizeKnown streamed_entry"
    and c: "compressionMethod streamed_entry = cm_deflate"
    by (simp_all add: streamed_entry_def cm_deflate_def)
  have n: "length (fileName (streamed_entry\<lparr> relativeOffsetOfLocalHeader := Some 0 \<rparr>)) = 5"
    by (simp add: streamed_entry_def)
  have b: "createDeflateRaw stub_platform (chunks three_bytes) = [[1, 2, 3], [3, 0]]"
    by (simp add: stub_platform_def three_bytes_def)
  from unknown_sizes_header_and_descriptor [OF k] streamed_header_eval
  have 1: "readUInt32LE streamed_header 14 = Inr 0
      \<and> readUInt32LE streamed_header 18 = Inr 0xffffffff
      \<and> readUInt32LE streamed_header 22 = Inr 0xffffffff
      \<and> readUInt16LE streamed_header 6 = Inr 0x0808
      \<and> drop 35 streamed_header = [1, 0, 16, 0] @ replicate 16 0"
    unfolding n by auto
  from unknown_sizes_header_and_descriptor [OF k0] c addEntry_streamed
  have 2: "\<exists>header descriptor.
      pushed ((new_Zip 0)\<lparr> outputStreamCursor := 84,
        entries := [streamed_entry\<lparr> relativeOffsetOfLocalHeader := Some 0, crc32 := Some 3,
           uncompressedSize := Some 3, compressedSize := Some 5 \<rparr>],
        pushed := [streamed_header, [1, 2, 3], [3, 0], streamed_descriptor] \<rparr>)
        = pushed (new_Zip 0) @ [header]
            @ createDeflateRaw stub_platform (chunks three_bytes) @ [descriptor]
      \<and> take 4 descriptor = [0x50, 0x4b, 0x07, 0x08]"
    by blast
  have 3: "pushed ((new_Zip 0)\<lparr> outputStreamCursor := 84,
        entries := [streamed_entry\<lparr> relativeOffsetOfLocalHeader := Some 0, crc32 := Some 3,
           uncompressedSize := Some 3, compressedSize := Some 5 \<rparr>],
        pushed := [streamed_header, [1, 2, 3], [3, 0], streamed_descriptor] \<rparr>)
      = [streamed_header, [1, 2, 3], [3, 0], streamed_descriptor]"
    by simp
  show ?thesis
    using k0 c b streamed_header_eval 1 2 3 addEntry_streamed by blast
qed

lemma addReadStream_stored_sixteen:
  "addReadStream stub_platform 0 (new_Zip 0) sixteen_chunks a_txt stored_options =
     ((new_Zip 0)\<lparr> queue := Some Pending, outputStreamCursor := 55,
        pushed := [stored_header] \<rparr>, Pends)"
proof -
  have len: "length stored_header = 55"
    by (simp add: stored_header_def)
  have k: "\<not> crcAndFileSizeKnown stored_entry" "compressionMethod stored_entry = 0"
    by (simp_all add: stored_entry_def streamed_entry_def)
  show ?thesis
    by (simp add: addReadStream_def readStream_entry_def sanitize_a_txt stored_options_def epoch_options_def
        no_options_def default_def createEntry_stored EMPTY_BUFFER_def addEntry_def new_Zip_def
        addEntry_queued_def stored_header_eval writeBuffer_def writeEntryStream_def
        stored_pipeline_def objectHighWaterMark_def
        sixteen_chunks_def stub_platform_def total_length_def cm_deflate_def k len)
qed

text \<open>
  Claim C2 as stated fails. The entry that \<open>addReadStream\<close> writes for a stream whose
  sizes are not known has \<open>0xFFFFFFFF\<close>, not zero, in both 32-bit size fields of its
  local file header. And the descriptor does not follow the file data of an entry that
  is stored, not deflated: for the stream of three bytes the writer pushes the header
  and the descriptor and never the three bytes, and for a stream of sixteen chunks it
  pushes the header and nothing after it, the promise of the operation never settling.
\<close>

theorem unknown_sizes_fields_not_zero_counterexample:
  "snd (addReadStream stub_platform 0 (new_Zip 0) three_bytes a_txt epoch_options)
     = Resolves (streamed_entry\<lparr> relativeOffsetOfLocalHeader := Some 0, crc32 := Some 3,
           uncompressedSize := Some 3, compressedSize := Some 5 \<rparr>)
   \<and> \<not> crcAndFileSizeKnown streamed_entry
   \<and> hd (pushed (fst (addReadStream stub_platform 0 (new_Zip 0) three_bytes a_txt epoch_options)))
       = streamed_header
   \<and> readUInt32LE streamed_header 18 = Inr 0xffffffff
   \<and> readUInt32LE streamed_header 22 = Inr 0xffffffff
   \<and> \<not> crcAndFileSizeKnown stored_entry
   \<and> chunks three_bytes = [[1, 2, 3]]
   \<and> snd (addReadStream stub_platform 0 (new_Zip 0) three_bytes a_txt stored_options)
       = Resolves (stored_entry\<lparr> relativeOffsetOfLocalHeader := Some 0, crc32 := Some 3,
           uncompressedSize := Some 3, compressedSize := Some 3 \<rparr>)
   \<and> pushed (fst (addReadStream stub_platform 0 (new_Zip 0) three_bytes a_txt stored_options))
       = [stored_header, stored_descriptor]
   \<and> snd (addReadStream stub_platform 0 (new_Zip 0) sixteen_chunks a_txt stored_options) = Pends
   \<and> pushed (fst (addReadStream stub_platform 0 (new_Zip 0) sixteen_chunks a_txt stored_options))
       = [stored_header]"
  by (simp add: addReadStream_streamed addReadStream_stored addReadStream_stored_sixteen)
     (simp add: streamed_entry_def stored_entry_def streamed_header_def readUInt32LE_def
        readUIntLE_def three_bytes_def new_Zip_def)

section \<open>ZIP64 resolution in \<open>readEntry\<close>\<close>

text \<open>
  Claim C3 does not hold of the code: the fourth step of the ZIP64 block tests
  \<open>relativeOffsetOfLocalHeader\<close> against \<open>0xFFFFFFFF\<close> where the claim, and the block's
  own entry condition and error message, have \<open>diskNumberStart\<close> against \<open>0xFFFF\<close>.
  A header in the form the writer itself produces (three sentinels, disk number 0, a
  24-byte payload) is refused for lack of a disk number that it never asked for; and a
  header whose only sentinel is the disk number keeps \<open>0xFFFF\<close>, the payload unread.
\<close>

theorem zip64_disk_number_keyed_on_offset:
  "readEntry_zip64 own_zip64_header = Inl Zip64NoDiskNumberStart
   \<and> readEntry_zip64 disk_sentinel_header
       = Inr \<lparr> r_uncompressedSize = 3, r_compressedSize = 3,
               r_relativeOffsetOfLocalHeader = 0, r_diskNumberStart = 0xffff \<rparr>"
  by (simp add: readEntry_zip64_def own_zip64_header_def disk_sentinel_header_def
      read_zip64_slot_def bind_def readUIntLE_def)

section \<open>The trailing records\<close>

text \<open>
  Claim C4 does not hold of the code. \<open>useZip64Format\<close> is computed as the claim says,
  but the classic record is serialised before it is consulted, with the plain counts
  unless \<open>forceZip64Format\<close> is set. For an archive of 65536 entries the count does not
  fit the record's 16-bit fields, \<open>writeUInt16LE\<close> throws, and no trailing record is
  produced at all, although the ZIP64 form is due.
\<close>

theorem eocdr_unforced_overflow:
  "useZip64Format_eocdr many_entries
   \<and> getEndOfCentralDirectoryRecord (0, 0) many_entries = Inl RangeError"
  by (simp add: useZip64Format_eocdr_def many_entries_def getEndOfCentralDirectoryRecord_def
      eocdrBuffer_of_def serializeEndOfCentralDirectoryRecord_def writeUInt16LE_def
      writeUInt32LE_def bind_def)

section \<open>Additions after the writer is finalized\<close>









section \<open>The validating tap of the entry read stream\<close>

lemma validating_tap_first_chunk_too_long:
  assumes "ue_uncompressedSize entry < int (length chunk)"
  shows "validating_tap p entry \<lparr> chunks = chunk # rest, failure = f, uncaught = u \<rparr>
     = \<lparr> chunks = [], failure = None,
         uncaught = Some (TooManyBytes (ue_uncompressedSize entry) (int (length chunk))) \<rparr>"
  using assms by (simp add: validating_tap_def Let_def)

lemma stored_archive_header_eval:
  "readLocalFileHeader stored_archive 0 = Inr stored_archive_header"
  by (simp add: readLocalFileHeader_def read_def stored_archive_def subarray_def bind_def
      readUInt32LE_def readUInt16LE_def readUIntLE_def stored_archive_header_def)

lemma stored_data_eval: "subarray stored_archive 35 38 = [1, 2, 3]"
  by (simp add: subarray_def stored_archive_def)

lemma stored_source_eval:
  "openReadStream_source stub_platform stored_archive stored_read_entry no_read_options
     = Inr (stored_archive_header, \<lparr> chunks = [[1, 2, 3]], failure = None, uncaught = None \<rparr>)"
  "openReadStream_source stub_platform stored_archive short_read_entry no_read_options
     = Inr (stored_archive_header, \<lparr> chunks = [[1, 2, 3]], failure = None, uncaught = None \<rparr>)"
  "openReadStream_source stub_platform stored_archive long_read_entry no_read_options
     = Inr (stored_archive_header, \<lparr> chunks = [[1, 2, 3]], failure = None, uncaught = None \<rparr>)"
  by (simp_all add: openReadStream_source_def no_read_options_def bind_def stored_read_entry_def
      short_read_entry_def long_read_entry_def simple_entry_def stored_archive_header_eval Let_def
      stored_archive_header_def cm_none_def cm_deflate_def createReadStream_def
      MAX_SAFE_INTEGER_def decompress_active_def stored_data_eval)

lemma stored_validation_active: "validation_active no_read_options stored_archive_header"
  by (simp add: validation_active_def no_read_options_def stored_archive_header_def cm_none_def)

text \<open>
  Claim C6 does not hold of the code. \<open>stored_archive\<close> holds a stored entry of three
  bytes. Read through an entry whose central directory gives it an uncompressed size
  of 2, the one chunk of file data takes the count to 3, and the tap's \<open>transform\<close>
  throws its too-many-bytes error. The stream that \<open>openReadStream\<close> returned does
  not fail with it: it has delivered nothing, it neither ends nor fails, and the error
  is an uncaught exception. The errors of \<open>flush\<close>, thrown the same way, do fail the
  stream: with a size of 4 in the central directory the stream delivers the chunk and
  fails with the not-enough-bytes error. With the right size and checksum it delivers
  the chunk and ends.
\<close>

theorem too_many_bytes_thrown_past_the_stream:
  "openReadStream stub_platform stored_archive short_read_entry no_read_options
     = Inr \<lparr> chunks = [], failure = None, uncaught = Some (TooManyBytes 2 3) \<rparr>
   \<and> openReadStream stub_platform stored_archive long_read_entry no_read_options
     = Inr \<lparr> chunks = [[1, 2, 3]], failure = Some (NotEnoughBytes 4 3), uncaught = None \<rparr>
   \<and> openReadStream stub_platform stored_archive stored_read_entry no_read_options
     = Inr \<lparr> chunks = [[1, 2, 3]], failure = None, uncaught = None \<rparr>"
proof -
  have "ue_uncompressedSize short_read_entry < int (length [1, 2, 3 :: byte])"
    by (simp add: short_read_entry_def)
  from validating_tap_first_chunk_too_long [OF this]
  have t: "validating_tap stub_platform short_read_entry
       \<lparr> chunks = [[1, 2, 3]], failure = None, uncaught = None \<rparr>
     = \<lparr> chunks = [], failure = None, uncaught = Some (TooManyBytes 2 3) \<rparr>"
    by (simp add: short_read_entry_def)
  have 1: "openReadStream stub_platform stored_archive short_read_entry no_read_options
     = Inr \<lparr> chunks = [], failure = None, uncaught = Some (TooManyBytes 2 3) \<rparr>"
    by (simp add: openReadStream_def bind_def stored_source_eval stored_validation_active t)
  have t2: "validating_tap stub_platform long_read_entry
       \<lparr> chunks = [[1, 2, 3]], failure = None, uncaught = None \<rparr>
     = \<lparr> chunks = [[1, 2, 3]], failure = Some (NotEnoughBytes 4 3), uncaught = None \<rparr>"
    by (simp add: validating_tap_def Let_def tap_flush_def long_read_entry_def
        stored_read_entry_def simple_entry_def stub_platform_def)
  have 2: "openReadStream stub_platform stored_archive long_read_entry no_read_options
     = Inr \<lparr> chunks = [[1, 2, 3]], failure = Some (NotEnoughBytes 4 3), uncaught = None \<rparr>"
    by (simp add: openReadStream_def bind_def stored_source_eval stored_validation_active t2)
  have t3: "validating_tap stub_platform stored_read_entry
       \<lparr> chunks = [[1, 2, 3]], failure = None, uncaught = None \<rparr>
     = \<lparr> chunks = [[1, 2, 3]], failure = None, uncaught = None \<rparr>"
    by (simp add: validating_tap_def Let_def tap_flush_def
        stored_read_entry_def simple_entry_def stub_platform_def)
  have 3: "openReadStream stub_platform stored_archive stored_read_entry no_read_options
     = Inr \<lparr> chunks = [[1, 2, 3]], failure = None, uncaught = None \<rparr>"
    by (simp add: openReadStream_def bind_def stored_source_eval stored_validation_active t3)
  show ?thesis using 1 2 3 by simp
qed

section \<open>DOS date and time round trip\<close>

subsection \<open>Integer division\<close>

lemma div_step_aux:
  fixes q r k :: int
  assumes "0 < k" "0 \<le> r" "r < k"
  shows "(k * q + (r + 1)) div k = q + (if r + 1 = k then 1 else 0)"
    and "(k * q + (r + 1)) mod k = (if r + 1 = k then 0 else r + 1)"
proof -
  have d: "(k * q + (r + 1)) div k = q + (r + 1) div k"
    using assms(1) by (intro div_mult_self4) simp
  have m: "(k * q + (r + 1)) mod k = (r + 1) mod k"
    by (rule mod_mult_self4)
  show "(k * q + (r + 1)) div k = q + (if r + 1 = k then 1 else 0)"
  proof (cases "r + 1 = k")
    case True
    then show ?thesis using assms(1) unfolding d by simp
  next
    case False
    then have "r + 1 < k" using assms(3) by linarith
    then show ?thesis using assms(2) False unfolding d by (simp add: div_pos_pos_trivial)
  qed
  show "(k * q + (r + 1)) mod k = (if r + 1 = k then 0 else r + 1)"
  proof (cases "r + 1 = k")
    case True
    then show ?thesis unfolding m by simp
  next
    case False
    then have "r + 1 < k" using assms(3) by linarith
    then show ?thesis using assms(2) False unfolding m by (simp add: mod_pos_pos_trivial)
  qed
qed

lemma div_step:
  fixes a k :: int
  assumes "0 < k"
  shows "(a + 1) div k = a div k + (if (a + 1) mod k = 0 then 1 else 0)"
proof -
  have r: "0 \<le> a mod k" "a mod k < k" using assms by simp_all
  have e: "k * (a div k) + (a mod k + 1) = a + 1" by simp
  have d: "(a + 1) div k = a div k + (if a mod k + 1 = k then 1 else 0)"
    using div_step_aux(1) [OF assms r, of "a div k"] unfolding e .
  have m: "(a + 1) mod k = (if a mod k + 1 = k then 0 else a mod k + 1)"
    using div_step_aux(2) [OF assms r, of "a div k"] unfolding e .
  have "a mod k + 1 \<noteq> 0" using r by linarith
  then show ?thesis unfolding d m by simp
qed

lemma div_bounds:
  fixes a k :: int
  assumes "0 < k"
  shows "k * (a div k) \<le> a" and "a < k * (a div k) + k"
proof -
  have e: "k * (a div k) + a mod k = a" by simp
  have r: "0 \<le> a mod k" "a mod k < k" using assms by simp_all
  show "k * (a div k) \<le> a" using e r by linarith
  show "a < k * (a div k) + k" using e r by linarith
qed

lemma small_cases:
  "0 \<le> (z::int) \<Longrightarrow> z < 7 \<Longrightarrow> z = 0 \<or> z = 1 \<or> z = 2 \<or> z = 3 \<or> z = 4 \<or> z = 5 \<or> z = 6"
  by linarith

lemma leap_days_bounds:
  fixes z :: int
  assumes "0 \<le> z"
  shows "0 \<le> (z + 1) div 4 - (z + 69) div 100 + (z + 369) div 400"
    and "(z + 1) div 4 - (z + 69) div 100 + (z + 369) div 400 \<le> z"
proof -
  have a: "4 * ((z + 1) div 4) \<le> z + 1" "z + 1 < 4 * ((z + 1) div 4) + 4"
    using div_bounds [of 4 "z + 1"] by simp_all
  have b: "100 * ((z + 69) div 100) \<le> z + 69" "z + 69 < 100 * ((z + 69) div 100) + 100"
    using div_bounds [of 100 "z + 69"] by simp_all
  have c: "400 * ((z + 369) div 400) \<le> z + 369" "z + 369 < 400 * ((z + 369) div 400) + 400"
    using div_bounds [of 400 "z + 369"] by simp_all
  have s: "z < 7 \<Longrightarrow> 0 \<le> (z + 1) div 4 - (z + 69) div 100 + (z + 369) div 400
      \<and> (z + 1) div 4 - (z + 69) div 100 + (z + 369) div 400 \<le> z"
    using small_cases [OF assms] by auto
  have l: "7 \<le> z \<Longrightarrow> 0 \<le> (z + 1) div 4 - (z + 69) div 100 + (z + 369) div 400"
    using a b c by linarith
  have u: "7 \<le> z \<Longrightarrow> (z + 1) div 4 - (z + 69) div 100 + (z + 369) div 400 \<le> z"
    using a b c by linarith
  show "0 \<le> (z + 1) div 4 - (z + 69) div 100 + (z + 369) div 400"
    using s l by linarith
  show "(z + 1) div 4 - (z + 69) div 100 + (z + 369) div 400 \<le> z"
    using s u by linarith
qed

lemma DayFromYear_bounds:
  assumes "1970 \<le> y"
  shows "365 * (y - 1970) \<le> DayFromYear y" and "DayFromYear y \<le> 366 * (y - 1970)"
proof -
  define z where "z = y - 1970"
  define L where "L = (z + 1) div 4 - (z + 69) div 100 + (z + 369) div 400"
  have z: "0 \<le> z" using assms by (simp add: z_def)
  have e: "DayFromYear y = 365 * z + L"
    by (simp add: DayFromYear_def z_def L_def algebra_simps)
  have l: "0 \<le> L" "L \<le> z" using leap_days_bounds [OF z] by (simp_all add: L_def)
  have "365 * z \<le> 365 * z + L" "365 * z + L \<le> 366 * z" using l by simp_all
  then show "365 * (y - 1970) \<le> DayFromYear y" "DayFromYear y \<le> 366 * (y - 1970)"
    unfolding e z_def by simp_all
qed

lemma mod_shift: 
  "((y::int) - 1968) mod 4 = 0 \<longleftrightarrow> y mod 4 = 0"
  "((y::int) - 1900) mod 100 = 0 \<longleftrightarrow> y mod 100 = 0"
  "((y::int) - 1600) mod 400 = 0 \<longleftrightarrow> y mod 400 = 0"
proof -
  have "(y - 1968) mod 4 = y mod 4" using mod_mult_self1 [of y "- 492" 4] by simp
  then show "((y::int) - 1968) mod 4 = 0 \<longleftrightarrow> y mod 4 = 0" by simp
  have "(y - 1900) mod 100 = y mod 100" using mod_mult_self1 [of y "- 19" 100] by simp
  then show "((y::int) - 1900) mod 100 = 0 \<longleftrightarrow> y mod 100 = 0" by simp
  have "(y - 1600) mod 400 = y mod 400" using mod_mult_self1 [of y "- 4" 400] by simp
  then show "((y::int) - 1600) mod 400 = 0 \<longleftrightarrow> y mod 400 = 0" by simp
qed

lemma mod_chain:
  "(y::int) mod 400 = 0 \<Longrightarrow> y mod 100 = 0" "(y::int) mod 100 = 0 \<Longrightarrow> y mod 4 = 0"
proof -
  have a: "(100::int) dvd 400" "(4::int) dvd 100" by simp_all
  show "y mod 400 = 0 \<Longrightarrow> y mod 100 = 0"
    using dvd_trans [OF a(1), of y] by (simp add: mod_eq_0_iff_dvd)
  show "y mod 100 = 0 \<Longrightarrow> y mod 4 = 0"
    using dvd_trans [OF a(2), of y] by (simp add: mod_eq_0_iff_dvd)
qed

lemma DayFromYear_Suc:
  "DayFromYear (y + 1) = DayFromYear y + DaysInYear y"
proof -
  have "(y - 1969 + 1) div 4 = (y - 1969) div 4 + (if (y - 1969 + 1) mod 4 = 0 then 1 else 0)"
    by (rule div_step) simp
  then have a: "(y - 1968) div 4 = (y - 1969) div 4 + (if y mod 4 = 0 then 1 else 0)"
    using mod_shift(1) [of y] by simp
  have "(y - 1901 + 1) div 100 = (y - 1901) div 100 + (if (y - 1901 + 1) mod 100 = 0 then 1 else 0)"
    by (rule div_step) simp
  then have b: "(y - 1900) div 100 = (y - 1901) div 100 + (if y mod 100 = 0 then 1 else 0)"
    using mod_shift(2) [of y] by simp
  have "(y - 1601 + 1) div 400 = (y - 1601) div 400 + (if (y - 1601 + 1) mod 400 = 0 then 1 else 0)"
    by (rule div_step) simp
  then have c: "(y - 1600) div 400 = (y - 1601) div 400 + (if y mod 400 = 0 then 1 else 0)"
    using mod_shift(3) [of y] by simp
  have e: "DayFromYear (y + 1)
      = 365 * (y - 1970) + 365 + (y - 1968) div 4 - (y - 1900) div 100 + (y - 1600) div 400"
    by (simp add: DayFromYear_def)
  show ?thesis
    unfolding e a b c unfolding DayFromYear_def DaysInYear_def
    using mod_chain [of y] by auto
qed

lemma year_search_le: "year_search n y d \<le> y"
proof (induction n arbitrary: y)
  case 0
  show ?case by simp
next
  case (Suc n)
  have "year_search n (y - 1) d \<le> y - 1" by (rule Suc.IH)
  then show ?case by simp
qed

lemma year_search_above:
  "year_search n y d < y' \<Longrightarrow> y' \<le> y \<Longrightarrow> d < DayFromYear y'"
proof (induction n arbitrary: y)
  case 0
  then show ?case by simp
next
  case (Suc n)
  show ?case
  proof (cases "DayFromYear y \<le> d")
    case True
    then show ?thesis using Suc.prems by simp
  next
    case False
    then have r: "year_search n (y - 1) d < y'" using Suc.prems(1) by simp
    show ?thesis
    proof (cases "y' = y")
      case True
      then show ?thesis using False by simp
    next
      case ne: False
      then have "y' \<le> y - 1" using Suc.prems(2) by simp
      then show ?thesis using Suc.IH [OF r] by simp
    qed
  qed
qed

lemma year_search_found:
  "y - int n < y1 \<Longrightarrow> y1 \<le> y \<Longrightarrow> DayFromYear y1 \<le> d
     \<Longrightarrow> DayFromYear (year_search n y d) \<le> d"
proof (induction n arbitrary: y)
  case 0
  then show ?case by simp
next
  case (Suc n)
  show ?case
  proof (cases "DayFromYear y \<le> d")
    case True
    then show ?thesis by simp
  next
    case False
    then have "y1 \<noteq> y" using Suc.prems(3) by auto
    then have a: "y1 \<le> y - 1" "y - 1 - int n < y1" using Suc.prems(1,2) by simp_all
    show ?thesis using False Suc.IH [OF a(2) a(1) Suc.prems(3)] by simp
  qed
qed

lemma YearFromTime_correct:
  assumes "1970 \<le> YearFromTime t"
  shows "DayFromYear (YearFromTime t) \<le> Day t"
    and "Day t < DayFromYear (YearFromTime t + 1)"
proof -
  define d where "d = Day t"
  define y0 where "y0 = 1970 + max (d div 365) (d div 366)"
  define n where "n = nat \<bar>d div 365 - d div 366\<bar> + 1"
  have Y: "YearFromTime t = year_search n y0 d"
    by (simp add: YearFromTime_def Let_def d_def y0_def n_def)
  have le: "YearFromTime t \<le> y0" unfolding Y by (rule year_search_le)
  have d0: "0 \<le> d"
  proof (rule ccontr)
    assume "\<not> 0 \<le> d"
    then have "d < 0" by simp
    then have "d div 365 < 0" "d div 366 < 0" by (simp_all add: div_neg_pos_less0)
    then have "y0 < 1970" unfolding y0_def by simp
    then show False using le assms by simp
  qed
  have m: "d div 366 \<le> d div 365" using d0 by (intro zdiv_mono2) simp_all
  then have y0: "y0 = 1970 + d div 365" unfolding y0_def by simp
  have n: "int n = d div 365 - d div 366 + 1" using m unfolding n_def by simp
  define y1 where "y1 = 1970 + d div 366"
  have q: "0 \<le> d div 366" "0 \<le> d div 365" using d0 by (simp_all add: pos_imp_zdiv_nonneg_iff)
  have "DayFromYear y1 \<le> 366 * (y1 - 1970)"
    using q by (intro DayFromYear_bounds(2)) (simp add: y1_def)
  moreover have "366 * (d div 366) \<le> d" using div_bounds(1) [of 366 d] by simp
  ultimately have f: "DayFromYear y1 \<le> d" unfolding y1_def by simp
  have "y0 - int n < y1" "y1 \<le> y0" unfolding y0 n y1_def using m by simp_all
  then have "DayFromYear (year_search n y0 d) \<le> d" using f by (rule year_search_found)
  then show "DayFromYear (YearFromTime t) \<le> Day t" unfolding Y d_def .
  have "365 * (y0 + 1 - 1970) \<le> DayFromYear (y0 + 1)"
    using q by (intro DayFromYear_bounds(1)) (simp add: y0)
  moreover have "d < 365 * (d div 365) + 365" using div_bounds(2) [of 365 d] by simp
  ultimately have top: "d < DayFromYear (y0 + 1)" unfolding y0 by simp
  have "d < DayFromYear (YearFromTime t + 1)"
  proof (cases "YearFromTime t = y0")
    case True
    then show ?thesis using top by simp
  next
    case False
    then have "year_search n y0 d < YearFromTime t + 1" "YearFromTime t + 1 \<le> y0"
      using le Y by simp_all
    then show ?thesis by (rule year_search_above)
  qed
  then show "Day t < DayFromYear (YearFromTime t + 1)" unfolding d_def .
qed

lemma DayWithinYear_range:
  assumes "1970 \<le> YearFromTime t"
  shows "0 \<le> DayWithinYear t" and "DayWithinYear t < 365 + InLeapYear t"
proof -
  show "0 \<le> DayWithinYear t"
    using YearFromTime_correct(1) [OF assms] by (simp add: DayWithinYear_def)
  have "DaysInYear (YearFromTime t) = 365 + InLeapYear t"
    by (simp add: InLeapYear_def DaysInYear_def)
  then show "DayWithinYear t < 365 + InLeapYear t"
    using YearFromTime_correct(2) [OF assms] DayFromYear_Suc [of "YearFromTime t"]
    by (simp add: DayWithinYear_def)
qed

lemma MonthFromTime_range: "0 \<le> MonthFromTime t" "MonthFromTime t \<le> 11"
  by (simp_all add: MonthFromTime_def Let_def)

lemma InLeapYear_cases: "InLeapYear t = 0 \<or> InLeapYear t = 1"
  by (simp add: InLeapYear_def)

lemma DateFromTime_range:
  assumes "1970 \<le> YearFromTime t"
  shows "1 \<le> DateFromTime t" and "DateFromTime t \<le> 31"
proof -
  define d where "d = DayWithinYear t"
  define l where "l = InLeapYear t"
  have r: "0 \<le> d" "d < 365 + l" "l = 0 \<or> l = 1"
    using DayWithinYear_range [OF assms] InLeapYear_cases [of t] by (simp_all add: d_def l_def)
  have e: "DateFromTime t = d - days_before_month
      (if d < 31 then 0 else if d < 59 + l then 1 else if d < 90 + l then 2
       else if d < 120 + l then 3 else if d < 151 + l then 4 else if d < 181 + l then 5
       else if d < 212 + l then 6 else if d < 243 + l then 7 else if d < 273 + l then 8
       else if d < 304 + l then 9 else if d < 334 + l then 10 else 11) l + 1"
    by (simp add: DateFromTime_def MonthFromTime_def Let_def d_def l_def)
  show "1 \<le> DateFromTime t" unfolding e using r by (auto simp: days_before_month_def)
  show "DateFromTime t \<le> 31" unfolding e using r by (auto simp: days_before_month_def)
qed

lemma MakeDay_inverse:
  "MakeDay (YearFromTime t) (MonthFromTime t) (DateFromTime t) = Day t"
proof -
  have "MonthFromTime t div 12 = 0" "MonthFromTime t mod 12 = MonthFromTime t"
    using MonthFromTime_range [of t] by (simp_all add: div_pos_pos_trivial mod_pos_pos_trivial)
  then show ?thesis
    by (simp add: MakeDay_def Let_def DateFromTime_def InLeapYear_def DayWithinYear_def)
qed

lemma time_linear:
  fixes q u v w r1 r2 r3 p :: int
  assumes "q = 60 * u + r1" "u = 60 * v + r2" "v = 24 * w + r3"
  shows "w * 86400000 + (r3 * 3600000 + r2 * 60000 + (r1 - p) * 1000) = 1000 * q - p * 1000"
  unfolding assms by (simp add: algebra_simps)

lemma time_of_day:
  assumes "t mod 1000 = 0"
  shows "MakeDate (Day t)
           (MakeTime (getUTCHours t) (getUTCMinutes t) (getUTCSeconds t div 2 * 2) 0)
         = t - (getUTCSeconds t mod 2) * 1000"
proof -
  define q where "q = t div 1000"
  have t: "t = 1000 * q" using assms unfolding q_def by (simp add: mod_eq_0_iff_dvd)
  define u where "u = q div 60"
  define v where "v = u div 60"
  define w where "w = v div 24"
  have a: "t div 60000 = u" "t div 3600000 = v" "t div 86400000 = w"
  proof -
    have "t div (1000 * 60) = t div 1000 div 60" by (rule zdiv_zmult2_eq) simp
    then show 1: "t div 60000 = u" by (simp add: u_def q_def)
    have "t div (60000 * 60) = t div 60000 div 60" by (rule zdiv_zmult2_eq) simp
    then show 2: "t div 3600000 = v" using 1 by (simp add: v_def)
    have "t div (3600000 * 24) = t div 3600000 div 24" by (rule zdiv_zmult2_eq) simp
    then show "t div 86400000 = w" using 2 by (simp add: w_def)
  qed
  have b: "q = 60 * u + q mod 60" "u = 60 * v + u mod 60" "v = 24 * w + v mod 24"
    unfolding u_def v_def w_def by simp_all
  have c: "q mod 60 div 2 * 2 = q mod 60 - q mod 60 mod 2"
    by (simp add: minus_mod_eq_div_mult)
  have s: "getUTCSeconds t = q mod 60" by (simp add: getUTCSeconds_def q_def)
  have "MakeDate (Day t)
           (MakeTime (getUTCHours t) (getUTCMinutes t) (getUTCSeconds t div 2 * 2) 0)
      = w * 86400000 + (v mod 24 * 3600000 + u mod 60 * 60000
          + (q mod 60 div 2 * 2) * 1000)"
    unfolding s
    by (simp add: MakeDate_def MakeTime_def Day_def msPerDay_def getUTCHours_def
        getUTCMinutes_def a)
  also have "\<dots> = 1000 * q - (q mod 60 mod 2) * 1000"
    unfolding c using b by (rule time_linear)
  finally show ?thesis unfolding s t [symmetric] .
qed

lemma pack3_take:
  fixes a b c :: int
  shows "take_bit i (take_bit i a OR push_bit i (take_bit j b) OR push_bit (i + j) (take_bit k c))
           = take_bit i a"
  by (rule bit_eqI) (auto simp: bit_simps)

lemma pack3_mid:
  fixes a b c :: int
  shows "take_bit j (drop_bit i (take_bit i a OR push_bit i (take_bit j b)
           OR push_bit (i + j) (take_bit k c))) = take_bit j b"
  by (rule bit_eqI) (auto simp: bit_simps)

lemma pack3_top:
  fixes a b c :: int
  shows "take_bit k (drop_bit (i + j) (take_bit i a OR push_bit i (take_bit j b)
           OR push_bit (i + j) (take_bit k c))) = take_bit k c"
  by (rule bit_eqI) (auto simp: bit_simps)

lemma masks:
  fixes x :: int
  shows "x AND 0x1f = take_bit 5 x" "x AND 0xf = take_bit 4 x"
    "x AND 0x3f = take_bit 6 x" "x AND 0x7f = take_bit 7 x"
  by (simp_all add: take_bit_eq_mask mask_eq_exp_minus_1)

lemma take_bit_id:
  fixes x :: int
  assumes "0 \<le> x" "x < 2 ^ n"
  shows "take_bit n x = x"
  using assms by (simp add: take_bit_int_eq_self)

subsection \<open>Encoding and decoding\<close>

lemma dos_date_fields:
  assumes "1980 \<le> getUTCFullYear t" "getUTCFullYear t \<le> 2107"
  shows "dos_date (dateToDosDateTime t)
           = getUTCDate t OR push_bit 5 (getUTCMonth t + 1) OR push_bit 9 (getUTCFullYear t - 1980)"
    and "dos_date (dateToDosDateTime t) AND 0x1f = getUTCDate t"
    and "drop_bit 5 (dos_date (dateToDosDateTime t)) AND 0xf = getUTCMonth t + 1"
    and "drop_bit 9 (dos_date (dateToDosDateTime t)) AND 0x7f = getUTCFullYear t - 1980"
proof -
  define D where "D = getUTCDate t"
  define M where "M = getUTCMonth t + 1"
  define Y where "Y = getUTCFullYear t - 1980"
  have y: "1970 \<le> YearFromTime t" using assms(1) by (simp add: getUTCFullYear_def)
  have "0 \<le> D" "D < 2 ^ 5"
    using DateFromTime_range [OF y] by (simp_all add: D_def getUTCDate_def)
  then have d: "take_bit 5 D = D" by (rule take_bit_id)
  have "0 \<le> M" "M < 2 ^ 4"
    using MonthFromTime_range [of t] by (simp_all add: M_def getUTCMonth_def)
  then have m: "take_bit 4 M = M" by (rule take_bit_id)
  have "0 \<le> Y" "Y < 2 ^ 7" using assms by (simp_all add: Y_def)
  then have yy: "take_bit 7 Y = Y" by (rule take_bit_id)
  have e: "dos_date (dateToDosDateTime t) = D OR push_bit 5 M OR push_bit 9 Y"
    by (simp add: dateToDosDateTime_def masks d m yy
        D_def [symmetric] M_def [symmetric] Y_def [symmetric])
  show "dos_date (dateToDosDateTime t)
           = getUTCDate t OR push_bit 5 (getUTCMonth t + 1) OR push_bit 9 (getUTCFullYear t - 1980)"
    using e by (simp add: D_def M_def Y_def)
  have p: "take_bit 5 (D OR push_bit 5 M OR push_bit 9 Y) = D"
    "take_bit 4 (drop_bit 5 (D OR push_bit 5 M OR push_bit 9 Y)) = M"
    "take_bit 7 (drop_bit 9 (D OR push_bit 5 M OR push_bit 9 Y)) = Y"
    using pack3_take [of 5 D 4 M 7 Y] pack3_mid [of 4 5 D M 7 Y] pack3_top [of 7 5 4 D M Y]
    unfolding d m yy by simp_all
  show "dos_date (dateToDosDateTime t) AND 0x1f = getUTCDate t"
    unfolding e masks p by (simp add: D_def)
  show "drop_bit 5 (dos_date (dateToDosDateTime t)) AND 0xf = getUTCMonth t + 1"
    unfolding e masks p by (simp add: M_def)
  show "drop_bit 9 (dos_date (dateToDosDateTime t)) AND 0x7f = getUTCFullYear t - 1980"
    unfolding e masks p by (simp add: Y_def)
qed

lemma dos_time_fields:
  shows "dos_time (dateToDosDateTime t)
           = getUTCSeconds t div 2 OR push_bit 5 (getUTCMinutes t) OR push_bit 11 (getUTCHours t)"
    and "dos_time (dateToDosDateTime t) AND 0x1f = getUTCSeconds t div 2"
    and "drop_bit 5 (dos_time (dateToDosDateTime t)) AND 0x3f = getUTCMinutes t"
    and "drop_bit 11 (dos_time (dateToDosDateTime t)) AND 0x1f = getUTCHours t"
proof -
  define S where "S = getUTCSeconds t div 2"
  define M where "M = getUTCMinutes t"
  define H where "H = getUTCHours t"
  have "0 \<le> getUTCSeconds t" "getUTCSeconds t < 60" by (simp_all add: getUTCSeconds_def)
  then have "0 \<le> S" "S < 2 ^ 5" unfolding S_def by simp_all
  then have s: "take_bit 5 S = S" by (rule take_bit_id)
  have "0 \<le> M" "M < 2 ^ 6" by (simp_all add: M_def getUTCMinutes_def)
  then have m: "take_bit 6 M = M" by (rule take_bit_id)
  have "0 \<le> H" "H < 2 ^ 5" by (simp_all add: H_def getUTCHours_def)
  then have h: "take_bit 5 H = H" by (rule take_bit_id)
  have e: "dos_time (dateToDosDateTime t) = S OR push_bit 5 M OR push_bit 11 H"
    by (simp add: dateToDosDateTime_def masks m h
        S_def [symmetric] M_def [symmetric] H_def [symmetric])
  show "dos_time (dateToDosDateTime t)
           = getUTCSeconds t div 2 OR push_bit 5 (getUTCMinutes t) OR push_bit 11 (getUTCHours t)"
    using e by (simp add: S_def M_def H_def)
  have p: "take_bit 5 (S OR push_bit 5 M OR push_bit 11 H) = S"
    "take_bit 6 (drop_bit 5 (S OR push_bit 5 M OR push_bit 11 H)) = M"
    "take_bit 5 (drop_bit 11 (S OR push_bit 5 M OR push_bit 11 H)) = H"
    using pack3_take [of 5 S 6 M 5 H] pack3_mid [of 6 5 S M 5 H] pack3_top [of 5 5 6 S M H]
    unfolding s m h by simp_all
  show "dos_time (dateToDosDateTime t) AND 0x1f = getUTCSeconds t div 2"
    unfolding e masks p by (simp add: S_def)
  show "drop_bit 5 (dos_time (dateToDosDateTime t)) AND 0x3f = getUTCMinutes t"
    unfolding e masks p by (simp add: M_def)
  show "drop_bit 11 (dos_time (dateToDosDateTime t)) AND 0x1f = getUTCHours t"
    unfolding e masks p by (simp add: H_def)
qed

lemma year_2024: "getUTCFullYear 1724793206000 = 2024" "getUTCFullYear 1724793207000 = 2024"
  by code_simp+

lemma seconds_2024: "getUTCSeconds 1724793206000 = 26" "getUTCSeconds 1724793207000 = 27"
  by (simp_all add: getUTCSeconds_def)

text \<open>
  Claim C7. Let \<open>t\<close> be a time value with whole seconds whose UTC year lies in
  1980..2107. Then the masks of \<open>dateToDosDateTime\<close> cut nothing off: the encoded date
  is \<open>day | (month << 5) | ((year - 1980) << 9)\<close> with the month counted from 1, the
  encoded time is \<open>floor(seconds / 2) | (minutes << 5) | (hours << 11)\<close>; and
  \<open>dosDateTimeToDate\<close> of the two gives \<open>t\<close> back when the seconds are even, and
  \<open>t\<close> less one second (the seconds rounded down to even) when they are odd.
\<close>

theorem dos_date_time_round_trip:
  assumes "getUTCMilliseconds t = 0"
    and "1980 \<le> getUTCFullYear t" and "getUTCFullYear t \<le> 2107"
  shows "dos_date (dateToDosDateTime t)
           = getUTCDate t OR push_bit 5 (getUTCMonth t + 1) OR push_bit 9 (getUTCFullYear t - 1980)
    \<and> dos_time (dateToDosDateTime t)
           = getUTCSeconds t div 2 OR push_bit 5 (getUTCMinutes t) OR push_bit 11 (getUTCHours t)
    \<and> dosDateTimeToDate (dos_date (dateToDosDateTime t)) (dos_time (dateToDosDateTime t))
           = (if even (getUTCSeconds t) then t else t - 1000)"
proof -
  let ?d = "dos_date (dateToDosDateTime t)" and ?t = "dos_time (dateToDosDateTime t)"
  have ms: "t mod 1000 = 0" using assms(1) by (simp add: getUTCMilliseconds_def)
  have y: "\<not> (0 \<le> YearFromTime t \<and> YearFromTime t \<le> 99)"
    using assms(2) by (simp add: getUTCFullYear_def)
  have "dosDateTimeToDate ?d ?t
      = Date_UTC (YearFromTime t) (MonthFromTime t) (DateFromTime t)
          (getUTCHours t) (getUTCMinutes t) (getUTCSeconds t div 2 * 2)"
    unfolding dosDateTimeToDate_def dos_date_fields(2-4) [OF assms(2,3)] dos_time_fields(2-4)
    by (simp add: getUTCFullYear_def getUTCMonth_def getUTCDate_def)
  also have "\<dots> = MakeDate (Day t)
      (MakeTime (getUTCHours t) (getUTCMinutes t) (getUTCSeconds t div 2 * 2) 0)"
    unfolding Date_UTC_def Let_def if_not_P [OF y] MakeDay_inverse ..
  also have "\<dots> = t - (getUTCSeconds t mod 2) * 1000"
    using ms by (rule time_of_day)
  also have "\<dots> = (if even (getUTCSeconds t) then t else t - 1000)"
    by (simp add: even_iff_mod_2_eq_zero odd_iff_mod_2_eq_one)
  finally show ?thesis
    using dos_date_fields(1) [OF assms(2,3)] dos_time_fields(1) [of t] by simp
qed

theorem dos_date_time_round_trip_witness:
  "getUTCMilliseconds 1724793206000 = 0 \<and> getUTCFullYear 1724793206000 = 2024
   \<and> getUTCSeconds 1724793206000 = 26
   \<and> dosDateTimeToDate (dos_date (dateToDosDateTime 1724793206000))
        (dos_time (dateToDosDateTime 1724793206000)) = 1724793206000
   \<and> getUTCMilliseconds 1724793207000 = 0 \<and> getUTCFullYear 1724793207000 = 2024
   \<and> getUTCSeconds 1724793207000 = 27
   \<and> dosDateTimeToDate (dos_date (dateToDosDateTime 1724793207000))
        (dos_time (dateToDosDateTime 1724793207000)) = 1724793206000"
proof -
  have a: "getUTCMilliseconds 1724793206000 = 0" "1980 \<le> getUTCFullYear 1724793206000"
    "getUTCFullYear 1724793206000 \<le> 2107"
    by (simp_all add: getUTCMilliseconds_def year_2024)
  have b: "getUTCMilliseconds 1724793207000 = 0" "1980 \<le> getUTCFullYear 1724793207000"
    "getUTCFullYear 1724793207000 \<le> 2107"
    by (simp_all add: getUTCMilliseconds_def year_2024)
  have "dosDateTimeToDate (dos_date (dateToDosDateTime 1724793206000))
        (dos_time (dateToDosDateTime 1724793206000))
      = (if even (getUTCSeconds 1724793206000) then 1724793206000 else 1724793206000 - 1000)"
    using dos_date_time_round_trip [OF a] by blast
  then have 1: "dosDateTimeToDate (dos_date (dateToDosDateTime 1724793206000))
        (dos_time (dateToDosDateTime 1724793206000)) = 1724793206000"
    by (simp add: seconds_2024)
  have "dosDateTimeToDate (dos_date (dateToDosDateTime 1724793207000))
        (dos_time (dateToDosDateTime 1724793207000))
      = (if even (getUTCSeconds 1724793207000) then 1724793207000 else 1724793207000 - 1000)"
    using dos_date_time_round_trip [OF b] by blast
  then have 2: "dosDateTimeToDate (dos_date (dateToDosDateTime 1724793207000))
        (dos_time (dateToDosDateTime 1724793207000)) = 1724793206000"
    by (simp add: seconds_2024)
  show ?thesis using a(1) b(1) 1 2 year_2024 seconds_2024 by blast
qed

section \<open>CP437 and UTF-8\<close>

lemma cp437_length: "length cp437 = 256"
  by (simp add: cp437_def)

lemma cp437_ascii_block: "take 95 (drop 32 cp437) = map of_nat [32..<127]"
  by (simp add: cp437_def upt_rec)

lemma cp437_ascii: 
  assumes "32 \<le> i" "i \<le> 126" shows "cp437 ! i = of_nat i"
proof -
  have "cp437 ! i = take 95 (drop 32 cp437) ! (i - 32)"
    using assms by (simp add: cp437_length)
  also have "\<dots> = map of_nat [32..<127] ! (i - 32)"
    by (simp only: cp437_ascii_block)
  also have "\<dots> = of_nat ([32..<127] ! (i - 32))"
    by (rule nth_map) (use assms in simp)
  also have "[32..<127] ! (i - 32) = 32 + (i - 32)"
    by (rule nth_upt) (use assms in simp)
  finally show ?thesis using assms by simp
qed

lemma reverse_table_notin: "c \<notin> set cs \<Longrightarrow> reverse_table cs i m c = m c"
  by (induction cs i m rule: reverse_table.induct) auto

lemma reverse_table_nth:
  "distinct cs \<Longrightarrow> k < length cs \<Longrightarrow> reverse_table cs i m (cs ! k) = Some (i + int k)"
proof (induction cs i m arbitrary: k rule: reverse_table.induct)
  case (1 i m)
  then show ?case by simp
next
  case (2 c cs i m)
  show ?case
  proof (cases k)
    case 0
    with "2.prems" show ?thesis by (simp add: reverse_table_notin)
  next
    case (Suc j)
    have "reverse_table cs (i + 1) (m(c \<mapsto> i)) (cs ! j) = Some (i + 1 + int j)"
      by (rule "2.IH") (use "2.prems" Suc in auto)
    also have "i + 1 + int j = i + int k" using Suc by simp
    finally show ?thesis using Suc by (simp only: reverse_table.simps nth_Cons_Suc)
  qed
qed

lemma cp437_unat_distinct: "distinct (map unat cp437)"
  by (simp add: cp437_def)
lemma cp437_distinct: "distinct cp437"
  using cp437_unat_distinct by (simp add: distinct_map)

lemma reverseCp437_nth: "k < 256 \<Longrightarrow> reverseCp437 (cp437 ! k) = Some (int k)"
  unfolding reverseCp437_def
  using reverse_table_nth [OF cp437_distinct, of k 0 Map.empty] by (simp add: cp437_length)

lemma utf8_ascii: "c \<le> 0x7e \<Longrightarrow> Buffer_from_string [c] = [ucast c]"
proof -
  assume a: "c \<le> 0x7e"
  then have "unat c \<le> 126" by (simp add: word_le_nat_alt)
  then have "unat c < 0x80" by simp
  moreover have "\<not> is_high_surrogate c" "\<not> is_low_surrogate c"
    using a by (auto simp: is_high_surrogate_def is_low_surrogate_def word_le_nat_alt)
  ultimately show ?thesis
    by (simp add: utf8_of_codepoint_def)
qed

lemma Buffer_from_string_ascii:
  "printable_ascii s \<Longrightarrow> Buffer_from_string s = map ucast s"
proof (induction s rule: Buffer_from_string.induct)
  case 1
  then show ?case by simp
next
  case (2 c)
  then show ?case using utf8_ascii [of c] by (simp add: printable_ascii_def)
next
  case (3 c d cs)
  then have c: "c \<le> 0x7e" and rest: "printable_ascii (d # cs)"
    by (simp_all add: printable_ascii_def)
  have ns: "\<not> is_high_surrogate c" "\<not> is_low_surrogate c"
    using c by (auto simp: is_high_surrogate_def is_low_surrogate_def word_le_nat_alt)
  have "Buffer_from_string (c # d # cs) = Buffer_from_string [c] @ Buffer_from_string (d # cs)"
    using ns by simp
  then show ?case using 3 ns rest utf8_ascii [OF c] by simp
qed

lemma decode_single: "decodeCp437 [b] 0 = [cp437 ! unat b]"
  by (simp add: decodeCp437_def)

lemma unat_byte_lt: "unat (b :: byte) < 256"
  using unsigned_less [of b, where ?'a = nat] by simp

lemma cp437_roundtrip_byte: "encodeCp437 (decodeCp437 [b] 0) = Inr [b]"
proof (cases "printable_ascii [cp437 ! unat b]")
  case True
  define c where "c = cp437 ! unat b"
  from True have r: "0x20 \<le> c" "c \<le> 0x7e" by (simp_all add: printable_ascii_def c_def)
  then have u: "32 \<le> unat c" "unat c \<le> 126" by (simp_all add: word_le_nat_alt)
  then have "cp437 ! unat c = of_nat (unat c)" by (rule cp437_ascii)
  then have "cp437 ! unat c = cp437 ! unat b" by (simp add: c_def)
  moreover have "unat c < length cp437" "unat b < length cp437"
    using u unat_byte_lt [of b] by (simp_all add: cp437_length)
  ultimately have "unat c = unat b"
    using nth_eq_iff_index_eq [OF cp437_distinct] by blast
  then have "(of_nat (unat c) :: byte) = of_nat (unat b)" by (simp only:)
  then have "(ucast c :: byte) = b" by simp
  then show ?thesis
    using True utf8_ascii [OF r(2)] by (simp add: encodeCp437_def decode_single c_def)
next
  case False
  then show ?thesis
    using reverseCp437_nth [OF unat_byte_lt, of b]
    by (simp add: encodeCp437_def decode_single)
qed

text \<open>
  Claim C8. For every byte \<open>b\<close>, encoding the one-character string that CP437-decoding
  the buffer \<open>[b]\<close> gives yields \<open>[b]\<close> again; and for a string of printable ASCII
  only (U+0020..U+007E), \<open>encodeCp437\<close> takes the fast path, whose result is the UTF-8
  encoding of the string, one byte per character.
\<close>

theorem cp437_roundtrip_and_ascii_fast_path:
  "encodeCp437 (decodeCp437 [b] 0) = Inr [b]
   \<and> (printable_ascii s \<longrightarrow>
        encodeCp437 s = Inr (Buffer_from_string s) \<and> Buffer_from_string s = map ucast s)"
  using cp437_roundtrip_byte [of b] Buffer_from_string_ascii [of s]
  by (simp add: encodeCp437_def)

theorem cp437_roundtrip_and_ascii_fast_path_witness:
  "encodeCp437 (decodeCp437 [0x82] 0) = Inr [0x82]
   \<and> printable_ascii [0x66, 0x6f, 0x6f]
   \<and> encodeCp437 [0x66, 0x6f, 0x6f] = Inr [0x66, 0x6f, 0x6f]
   \<and> Buffer_from_string [0x66, 0x6f, 0x6f] = [0x66, 0x6f, 0x6f]"
  using cp437_roundtrip_and_ascii_fast_path [of "0x82" "[0x66, 0x6f, 0x6f]"]
  by (simp add: printable_ascii_def)
section \<open>The output cursor\<close>

text \<open>
  Claim C9 does not hold of the code. An entry added from a stream with
  \<open>compress: false\<close> completes with the cursor advanced by header, data and data
  descriptor (55 + 3 + 24 = 82 bytes here), while only the header and the descriptor
  (79 bytes) were pushed: the stored branch of \<open>writeEntryStream\<close> counts the data and
  never pushes it.
\<close>

theorem stored_stream_cursor_runs_ahead:
  "addReadStream stub_platform 0 (new_Zip 0) three_bytes a_txt stored_options =
     ((new_Zip 0)\<lparr> outputStreamCursor := 82,
        entries := [stored_entry\<lparr> relativeOffsetOfLocalHeader := Some 0, crc32 := Some 3,
           uncompressedSize := Some 3, compressedSize := Some 3 \<rparr>],
        pushed := [stored_header, stored_descriptor] \<rparr>,
      Resolves (stored_entry\<lparr> relativeOffsetOfLocalHeader := Some 0, crc32 := Some 3,
           uncompressedSize := Some 3, compressedSize := Some 3 \<rparr>))
   \<and> total_length [stored_header, stored_descriptor] = 79"
proof -
  have "total_length [stored_header, stored_descriptor] = 79"
    by (simp add: total_length_def stored_header_def stored_descriptor_def)
  then show ?thesis using addReadStream_stored by simp
qed
section \<open>Re-registering an entry without its data\<close>

lemma pendingEntry_fields:
  assumes "pendingEntry entry True options = Inr pending"
  shows "relativeOffsetOfLocalHeader pending = Some (ue_relativeOffsetOfLocalHeader entry)"
    "crcAndFileSizeKnown pending"
    "crc32 pending = Some (cd_crc32 (centralDirectoryFileHeader entry))"
    "uncompressedSize pending = Some (ue_uncompressedSize entry)"
    "compressedSize pending = Some (ue_compressedSize entry)"
  using assms
  by (auto simp: pendingEntry_def bind_def Let_def split: sum.splits option.splits if_splits)

lemma pendingEntry_no_options:
  "\<exists>pending. pendingEntry entry w no_options = Inr pending"
  by (simp add: pendingEntry_def bind_def no_options_def Let_def)

text \<open>
  Claim C10. A call of \<open>Zip.addEntry\<close> without \<open>createReadStream\<close> pushes nothing,
  leaves the cursor where it was and keeps every entry recorded before it, whatever
  else it does. With no options it always builds its entry; and on a writer whose
  queue is live it appends exactly that entry, whose
  \<open>relativeOffsetOfLocalHeader\<close> is the source entry's, whose
  \<open>crcAndFileSizeKnown\<close> is true, whose CRC is the one stored in the source's
  central directory header and whose sizes are the sizes of the source entry (the
  header's own, or those of its ZIP64 extra field, as \<open>readEntry\<close> resolved them).
\<close>

theorem addEntry_without_stream_records_entry:
  "pushed (fst (Zip_addEntry self entry None options)) = pushed self
   \<and> outputStreamCursor (fst (Zip_addEntry self entry None options)) = outputStreamCursor self
   \<and> take (length (entries self)) (entries (fst (Zip_addEntry self entry None options)))
       = entries self
   \<and> (\<exists>pending. pendingEntry entry True no_options = Inr pending)
   \<and> (\<forall>pending. queue self = Some Resolved \<and> pendingEntry entry True options = Inr pending \<longrightarrow>
         Zip_addEntry self entry None options
           = (self\<lparr> entries := entries self @ [pending] \<rparr>, Resolves pending)
       \<and> relativeOffsetOfLocalHeader pending = Some (ue_relativeOffsetOfLocalHeader entry)
       \<and> crcAndFileSizeKnown pending
       \<and> crc32 pending = Some (cd_crc32 (centralDirectoryFileHeader entry))
       \<and> uncompressedSize pending = Some (ue_uncompressedSize entry)
       \<and> compressedSize pending = Some (ue_compressedSize entry))"
proof -
  have frame: "pushed (fst (Zip_addEntry self entry None options)) = pushed self
   \<and> outputStreamCursor (fst (Zip_addEntry self entry None options)) = outputStreamCursor self
   \<and> take (length (entries self)) (entries (fst (Zip_addEntry self entry None options)))
       = entries self"
    by (simp add: Zip_addEntry_def split: sum.splits option.splits promise_state.splits)
  have eff: "\<forall>pending. queue self = Some Resolved \<and> pendingEntry entry True options = Inr pending \<longrightarrow>
         Zip_addEntry self entry None options
           = (self\<lparr> entries := entries self @ [pending] \<rparr>, Resolves pending)
       \<and> relativeOffsetOfLocalHeader pending = Some (ue_relativeOffsetOfLocalHeader entry)
       \<and> crcAndFileSizeKnown pending
       \<and> crc32 pending = Some (cd_crc32 (centralDirectoryFileHeader entry))
       \<and> uncompressedSize pending = Some (ue_uncompressedSize entry)
       \<and> compressedSize pending = Some (ue_compressedSize entry)"
    using pendingEntry_fields [of entry options]
    by (simp add: Zip_addEntry_def)
  show ?thesis
    using frame eff pendingEntry_no_options [of entry True] by blast
qed


theorem addEntry_without_stream_records_entry_witness:
  "queue (new_Zip 4096) = Some Resolved
   \<and> (\<exists>pending. pendingEntry simple_entry True no_options = Inr pending
        \<and> Zip_addEntry (new_Zip 4096) simple_entry None no_options
            = ((new_Zip 4096)\<lparr> entries := [pending] \<rparr>, Resolves pending)
        \<and> relativeOffsetOfLocalHeader pending = Some 0
        \<and> crcAndFileSizeKnown pending
        \<and> crc32 pending = Some 3187940748
        \<and> uncompressedSize pending = Some 21
        \<and> compressedSize pending = Some 21)
   \<and> pushed (fst (Zip_addEntry (new_Zip 4096) simple_entry None no_options)) = []
   \<and> outputStreamCursor (fst (Zip_addEntry (new_Zip 4096) simple_entry None no_options)) = 4096"
proof -
  note t = addEntry_without_stream_records_entry [of "new_Zip 4096" simple_entry no_options]
  have q: "queue (new_Zip 4096) = Some Resolved" by (simp add: new_Zip_def)
  from t obtain pending where p: "pendingEntry simple_entry True no_options = Inr pending"
    by blast
  have f: "ue_relativeOffsetOfLocalHeader simple_entry = 0"
    "cd_crc32 (centralDirectoryFileHeader simple_entry) = 3187940748"
    "ue_uncompressedSize simple_entry = 21" "ue_compressedSize simple_entry = 21"
    "entries (new_Zip 4096) = []" "pushed (new_Zip 4096) = []"
    "outputStreamCursor (new_Zip 4096) = 4096"
    by (simp_all add: simple_entry_def new_Zip_def)
  from t q p have "Zip_addEntry (new_Zip 4096) simple_entry None no_options
           = ((new_Zip 4096)\<lparr> entries := entries (new_Zip 4096) @ [pending] \<rparr>, Resolves pending)
       \<and> relativeOffsetOfLocalHeader pending = Some (ue_relativeOffsetOfLocalHeader simple_entry)
       \<and> crcAndFileSizeKnown pending
       \<and> crc32 pending = Some (cd_crc32 (centralDirectoryFileHeader simple_entry))
       \<and> uncompressedSize pending = Some (ue_uncompressedSize simple_entry)
       \<and> compressedSize pending = Some (ue_compressedSize simple_entry)"
    by blast
  then show ?thesis using q p t f by auto
qed
section \<open>The search for the end of central directory record\<close>

lemma readUIntLE_in_range:
  "0 \<le> off \<Longrightarrow> off + int n \<le> int (length buf) \<Longrightarrow>
     readUIntLE n buf off = Inr (le_value (take n (drop (nat off) buf)))"
  by (simp add: readUIntLE_def)

lemma eocdr_scan_none:
  assumes "\<forall>j<n. \<exists>v. readUInt32LE buffer (int j) = Inr v \<and> v \<noteq> 0x06054b50"
  shows "eocdr_scan h ts ds brs buffer n = Inl EocdrSignatureNotFound"
  using assms by (induction n) auto

lemma eocdr_scan_last:
  assumes "i < n" "readUInt32LE buffer (int i) = Inr 0x06054b50"
    and "\<forall>j. i < j \<and> j < n \<longrightarrow> (\<exists>v. readUInt32LE buffer (int j) = Inr v \<and> v \<noteq> 0x06054b50)"
  shows "eocdr_scan h ts ds brs buffer n = eocdr_candidate h ts ds brs buffer (int i)"
  using assms
proof (induction n)
  case 0
  then show ?case by simp
next
  case (Suc n)
  show ?case
  proof (cases "i = n")
    case True
    with Suc.prems show ?thesis by simp
  next
    case False
    with Suc.prems have "i < n" by simp
    moreover from Suc.prems(3) \<open>i < n\<close>
    obtain v where "readUInt32LE buffer (int n) = Inr v" "v \<noteq> 0x06054b50" by auto
    moreover have "\<forall>j. i < j \<and> j < n \<longrightarrow> (\<exists>v. readUInt32LE buffer (int j) = Inr v \<and> v \<noteq> 0x06054b50)"
      using Suc.prems(3) by auto
    ultimately show ?thesis using Suc.IH Suc.prems(2) by simp
  qed
qed

lemma length_trailing_window:
  "length (trailing_window buffer) = min (length buffer) 65557"
  by (auto simp: trailing_window_def)

lemma read_trailing_window:
  "read buffer (int (length buffer) - min (int (length buffer)) (22 + 0xffff))
        (min (int (length buffer)) (22 + 0xffff)) = Inr (trailing_window buffer)"
  by (auto simp: read_def subarray_def trailing_window_def Let_def min_def nat_diff_distrib)

lemma fromBuffer_scan:
  "fromBuffer buffer ds =
     eocdr_scan buffer (int (length buffer)) ds
       (int (length buffer) - int (length (trailing_window buffer)))
       (trailing_window buffer) (nat (int (length (trailing_window buffer)) - 22 + 1))"
proof -
  have "int (length (trailing_window buffer)) = min (int (length buffer)) (22 + 0xffff)"
    by (simp add: length_trailing_window min_def)
  then show ?thesis
    using read_trailing_window [of buffer]
    by (simp add: fromBuffer_def fromRandomAccessReader_def Let_def bind_def)
qed


lemma fromBuffer_last_signature:
  assumes w: "window = trailing_window buffer"
    and i: "int i + 22 \<le> int (length window)"
    and sig: "readUInt32LE window (int i) = Inr 0x06054b50"
    and later: "\<forall>j. i < j \<and> int j + 22 \<le> int (length window)
                  \<longrightarrow> readUInt32LE window (int j) \<noteq> Inr 0x06054b50"
  shows "fromBuffer buffer ds =
     eocdr_candidate buffer (int (length buffer)) ds
       (int (length buffer) - int (length window)) window (int i)"
proof -
  let ?n = "nat (int (length window) - 22 + 1)"
  have a: "i < ?n" using i by simp
  have b: "\<forall>j. i < j \<and> j < ?n \<longrightarrow>
      (\<exists>v. readUInt32LE window (int j) = Inr v \<and> v \<noteq> 0x06054b50)"
  proof (intro allI impI)
    fix j assume j: "i < j \<and> j < ?n"
    then have r: "int j + 22 \<le> int (length window)" by linarith
    then have "readUInt32LE window (int j) = Inr (le_value (take 4 (drop j window)))"
      by (simp add: readUInt32LE_def readUIntLE_def)
    moreover have "readUInt32LE window (int j) \<noteq> Inr 0x06054b50"
      using later j r by blast
    ultimately show "\<exists>v. readUInt32LE window (int j) = Inr v \<and> v \<noteq> 0x06054b50"
      by auto
  qed
  have "eocdr_scan buffer (int (length buffer)) ds
       (int (length buffer) - int (length window)) window ?n
     = eocdr_candidate buffer (int (length buffer)) ds
       (int (length buffer) - int (length window)) window (int i)"
    using a sig b by (rule eocdr_scan_last)
  then show ?thesis
    unfolding w by (simp only: fromBuffer_scan)
qed

lemma candidate_reads:
  assumes "int i + 22 \<le> int (length window)"
  shows "\<exists>d n off c. readUInt16LE (drop i window) 4 = Inr d
     \<and> readUInt16LE (drop i window) 10 = Inr n
     \<and> readUInt32LE (drop i window) 16 = Inr off
     \<and> readUInt16LE (drop i window) 20 = Inr c"
  using assms by (simp add: readUInt16LE_def readUInt32LE_def readUIntLE_def)

text \<open>
  Claim C1, as the code has it. Let \<open>i\<close> be the last position of the trailing window,
  among those that leave room for the 22-byte record, at which the EOCDR signature
  stands: the first one the backward scan meets. The opener's result is decided there
  and it never looks at an earlier position. If the disk number read there is not zero
  it fails as a multi-disk archive; if the comment length read there differs from
  \<open>buffer.length - 22 - i\<close> it fails with 'invalid comment length' instead of scanning
  on; and if it matches and neither ZIP64 sentinel is present, the archive is opened
  with the entry count, the central directory offset and the comment of that record.
\<close>

theorem opener_uses_last_signature_or_fails:
  assumes w: "window = trailing_window buffer"
    and i: "int i + 22 \<le> int (length window)"
    and sig: "readUInt32LE window (int i) = Inr 0x06054b50"
    and later: "\<forall>j. i < j \<and> int j + 22 \<le> int (length window)
                  \<longrightarrow> readUInt32LE window (int j) \<noteq> Inr 0x06054b50"
  shows "fromBuffer buffer decodeStrings =
           eocdr_candidate buffer (int (length buffer)) decodeStrings
             (int (length buffer) - int (length window)) window (int i)
    \<and> (\<forall>d. readUInt16LE (drop i window) 4 = Inr d \<and> d \<noteq> 0 \<longrightarrow>
          fromBuffer buffer decodeStrings = Inl (MultiDisk d))
    \<and> (\<forall>c. readUInt16LE (drop i window) 4 = Inr 0
            \<and> readUInt16LE (drop i window) 20 = Inr c
            \<and> c \<noteq> int (length window) - 22 - int i \<longrightarrow>
          fromBuffer buffer decodeStrings
            = Inl (InvalidCommentLength (int (length window) - 22 - int i) c))
    \<and> (\<forall>n off. readUInt16LE (drop i window) 4 = Inr 0
            \<and> readUInt16LE (drop i window) 20 = Inr (int (length window) - 22 - int i)
            \<and> readUInt16LE (drop i window) 10 = Inr n \<and> n \<noteq> 0xffff
            \<and> readUInt32LE (drop i window) 16 = Inr off \<and> off \<noteq> 0xffffffff \<longrightarrow>
          fromBuffer buffer decodeStrings
            = Inr \<lparr> u_handle = buffer, u_centralDirectoryOffset = off,
                    u_fileSize = int (length buffer), u_entryCount = n,
                    u_comment = (if decodeStrings
                                 then Inr (decodeCp437 (drop i window) 22)
                                 else Inl (drop 22 (drop i window))) \<rparr>)"
proof -
  note c = fromBuffer_last_signature [OF w i sig later, of decodeStrings]
  obtain d n off cl where r: "readUInt16LE (drop i window) 4 = Inr d"
     "readUInt16LE (drop i window) 10 = Inr n"
     "readUInt32LE (drop i window) 16 = Inr off"
     "readUInt16LE (drop i window) 20 = Inr cl"
    using candidate_reads [OF i] by blast
  have len: "int (length (drop i window)) - 22 = int (length window) - 22 - int i"
    using i by simp
  show ?thesis
    unfolding c using r len
    by (auto simp: eocdr_candidate_def bind_def Let_def)
qed


lemma ambiguous_window: "trailing_window ambiguous_archive = ambiguous_archive"
  by (simp add: trailing_window_def ambiguous_archive_def)

lemma ambiguous_length: "length ambiguous_archive = 44"
  by (simp add: ambiguous_archive_def)

lemma ambiguous_reads:
  "readUInt32LE ambiguous_archive 22 = Inr 0x06054b50"
  "readUInt16LE (drop 22 ambiguous_archive) 4 = Inr 0"
  "readUInt16LE (drop 22 ambiguous_archive) 20 = Inr 1"
  "readUInt32LE ambiguous_archive 0 = Inr 0x06054b50"
  "readUInt16LE ambiguous_archive 4 = Inr 0"
  "readUInt16LE ambiguous_archive 20 = Inr 22"
  "readUInt16LE (drop 22 ambiguous_archive) 10 = Inr 0"
  "readUInt32LE (drop 22 ambiguous_archive) 16 = Inr 0"
  by (simp_all add: ambiguous_archive_def readUInt32LE_def readUInt16LE_def readUIntLE_def)

lemma empty_trailer_reads:
  "trailing_window empty_trailer = empty_trailer" "length empty_trailer = 22"
  "readUInt32LE empty_trailer 0 = Inr 0x06054b50"
  "readUInt16LE empty_trailer 4 = Inr 0"
  "readUInt16LE empty_trailer 10 = Inr 0"
  "readUInt32LE empty_trailer 16 = Inr 0"
  "readUInt16LE empty_trailer 20 = Inr 0"
  by (simp_all add: empty_trailer_def trailing_window_def readUInt32LE_def readUInt16LE_def
      readUIntLE_def)

theorem opener_uses_last_signature_or_fails_witness:
  "ambiguous_archive = trailing_window ambiguous_archive
   \<and> int 22 + 22 \<le> int (length ambiguous_archive)
   \<and> readUInt32LE ambiguous_archive (int 22) = Inr 0x06054b50
   \<and> fromBuffer ambiguous_archive True = Inl (InvalidCommentLength 0 1)
   \<and> empty_trailer = trailing_window empty_trailer
   \<and> readUInt32LE empty_trailer (int 0) = Inr 0x06054b50
   \<and> fromBuffer empty_trailer True
       = Inr \<lparr> u_handle = empty_trailer, u_centralDirectoryOffset = 0, u_fileSize = 22,
               u_entryCount = 0, u_comment = Inr [] \<rparr>"
proof -
  have a: "ambiguous_archive = trailing_window ambiguous_archive"
    by (simp add: ambiguous_window)
  have b: "int 22 + 22 \<le> int (length ambiguous_archive)"
    by (simp add: ambiguous_length)
  have c: "readUInt32LE ambiguous_archive (int 22) = Inr 0x06054b50"
    using ambiguous_reads(1) by simp
  have d: "\<forall>j. 22 < j \<and> int j + 22 \<le> int (length ambiguous_archive)
      \<longrightarrow> readUInt32LE ambiguous_archive (int j) \<noteq> Inr 0x06054b50"
    by (auto simp: ambiguous_length)
  have r: "readUInt16LE (drop 22 ambiguous_archive) 4 = Inr 0
      \<and> readUInt16LE (drop 22 ambiguous_archive) 20 = Inr 1
      \<and> 1 \<noteq> int (length ambiguous_archive) - 22 - int 22"
    using ambiguous_reads by (simp add: ambiguous_length)
  from opener_uses_last_signature_or_fails [OF a b c d, of True] r
  have "fromBuffer ambiguous_archive True
      = Inl (InvalidCommentLength (int (length ambiguous_archive) - 22 - int 22) 1)"
    by blast
  then have 1: "fromBuffer ambiguous_archive True = Inl (InvalidCommentLength 0 1)"
    by (simp add: ambiguous_length)
  have a': "empty_trailer = trailing_window empty_trailer"
    by (simp add: empty_trailer_reads)
  have b': "int 0 + 22 \<le> int (length empty_trailer)"
    by (simp add: empty_trailer_reads)
  have c': "readUInt32LE empty_trailer (int 0) = Inr 0x06054b50"
    using empty_trailer_reads(3) by simp
  have d': "\<forall>j. 0 < j \<and> int j + 22 \<le> int (length empty_trailer)
      \<longrightarrow> readUInt32LE empty_trailer (int j) \<noteq> Inr 0x06054b50"
    by (auto simp: empty_trailer_reads)
  have r': "readUInt16LE (drop 0 empty_trailer) 4 = Inr 0
      \<and> readUInt16LE (drop 0 empty_trailer) 20 = Inr (int (length empty_trailer) - 22 - int 0)
      \<and> readUInt16LE (drop 0 empty_trailer) 10 = Inr 0 \<and> (0 :: int) \<noteq> 0xffff
      \<and> readUInt32LE (drop 0 empty_trailer) 16 = Inr 0 \<and> (0 :: int) \<noteq> 0xffffffff"
    using empty_trailer_reads by simp
  from opener_uses_last_signature_or_fails [OF a' b' c' d', of True] r'
  have "fromBuffer empty_trailer True
       = Inr \<lparr> u_handle = empty_trailer, u_centralDirectoryOffset = 0,
               u_fileSize = int (length empty_trailer), u_entryCount = 0,
               u_comment = (if True then Inr (decodeCp437 (drop 0 empty_trailer) 22)
                            else Inl (drop 22 (drop 0 empty_trailer))) \<rparr>"
    by blast
  then have 2: "fromBuffer empty_trailer True
       = Inr \<lparr> u_handle = empty_trailer, u_centralDirectoryOffset = 0, u_fileSize = 22,
               u_entryCount = 0, u_comment = Inr [] \<rparr>"
    by (simp add: decodeCp437_def empty_trailer_reads)
  show ?thesis using a b c 1 a' c' 2 by blast
qed

text \<open>
  Claim C1 as stated fails. In \<open>ambiguous_archive\<close> the signature stands at 22 with a
  comment length (1) that does not match the 0 bytes left after it, and at 0 with a
  comment length (22) that does match; the opener fails at the first instead of going
  on to the second.
\<close>

theorem opener_does_not_scan_on_counterexample:
  "readUInt32LE ambiguous_archive 22 = Inr 0x06054b50
   \<and> readUInt16LE (drop 22 ambiguous_archive) 20 = Inr 1
   \<and> int (length ambiguous_archive) - 22 - 22 = 0
   \<and> readUInt32LE ambiguous_archive 0 = Inr 0x06054b50
   \<and> readUInt16LE ambiguous_archive 4 = Inr 0
   \<and> readUInt16LE ambiguous_archive 20 = Inr (int (length ambiguous_archive) - 22 - 0)
   \<and> fromBuffer ambiguous_archive True = Inl (InvalidCommentLength 0 1)"
proof -
  have d: "\<forall>j. 22 < j \<and> int j + 22 \<le> int (length ambiguous_archive)
      \<longrightarrow> readUInt32LE ambiguous_archive (int j) \<noteq> Inr 0x06054b50"
    by (auto simp: ambiguous_length)
  have a: "ambiguous_archive = trailing_window ambiguous_archive"
    by (simp add: ambiguous_window)
  have b: "int 22 + 22 \<le> int (length ambiguous_archive)"
    by (simp add: ambiguous_length)
  have c: "readUInt32LE ambiguous_archive (int 22) = Inr 0x06054b50"
    using ambiguous_reads(1) by simp
  have "fromBuffer ambiguous_archive True =
     eocdr_candidate ambiguous_archive (int (length ambiguous_archive)) True
       (int (length ambiguous_archive) - int (length ambiguous_archive)) ambiguous_archive (int 22)"
    using a b c d by (rule fromBuffer_last_signature)
  then have "fromBuffer ambiguous_archive True = Inl (InvalidCommentLength 0 1)"
    using ambiguous_reads
    by (simp add: eocdr_candidate_def bind_def Let_def ambiguous_length)
  then show ?thesis using ambiguous_reads by (simp add: ambiguous_length)
qed

end
